theory Spec2Isabelle
  imports Main "HOL-Library.Word" "HOL-Library.Sublist"
begin

section \<open>Go values used by the service\<close>

text \<open>
  A Go \<^verbatim>\<open>string\<close> is a sequence of bytes; it is modelled by \<^typ>\<open>string\<close>, whose
  characters are bytes. \<open>byte c\<close> is the numeric value of a byte.
\<close>

abbreviation byte :: "char \<Rightarrow> nat" where
  "byte c \<equiv> of_char c"

text \<open>A \<^verbatim>\<open>rune\<close> is a Unicode code point (Go's \<^verbatim>\<open>int32\<close>).\<close>

type_synonym rune = int

text \<open>
  A Go slice is either \<^verbatim>\<open>nil\<close> or holds a sequence of elements. The difference is
  visible to \<^verbatim>\<open>encoding/json\<close>: a nil slice is written as \<^verbatim>\<open>null\<close>, an empty
  non-nil one as \<^verbatim>\<open>[]\<close>.
\<close>

datatype 'a slice = NilSlice | Slice "'a list"

text \<open>\<^verbatim>\<open>for _, x := range s\<close> visits the elements; a nil slice has none.\<close>

fun elems :: "'a slice \<Rightarrow> 'a list" where
  "elems NilSlice = []"
| "elems (Slice xs) = xs"

text \<open>\<^verbatim>\<open>append(s, x)\<close>: the result is never nil.\<close>

fun append_slice :: "'a slice \<Rightarrow> 'a \<Rightarrow> 'a slice" where
  "append_slice NilSlice x = Slice [x]"
| "append_slice (Slice xs) x = Slice (xs @ [x])"

text \<open>A Go \<^verbatim>\<open>error\<close> value; \<open>Error\<close> is its message.\<close>

datatype error = ErrorString string

fun Error :: "error \<Rightarrow> string" where
  "Error (ErrorString msg) = msg"

text \<open>\<^verbatim>\<open>os.ErrNotExist\<close>.\<close>

definition ErrNotExist :: error where
  "ErrNotExist = ErrorString ''file does not exist''"

section \<open>Standard library: \<^verbatim>\<open>unicode/utf8\<close> and \<^verbatim>\<open>unicode\<close>\<close>

definition RuneError :: rune where
  "RuneError = 0xFFFD"

definition RuneSelf :: nat where
  "RuneSelf = 0x80"

definition UTFMax :: nat where
  "UTFMax = 4"

text \<open>
  The table \<^verbatim>\<open>first\<close> of package \<^verbatim>\<open>utf8\<close>: information about the first byte of an
  encoding. \<^verbatim>\<open>0xF0\<close> marks ASCII, \<^verbatim>\<open>0xF1\<close> an invalid first byte; otherwise the low
  three bits are the length and the high four bits index \<open>acceptRanges\<close>.
\<close>

definition first :: "nat \<Rightarrow> nat" where
  "first b =
    (if b < 0x80 then 0xF0
     else if b < 0xC2 then 0xF1
     else if b < 0xE0 then 0x02
     else if b = 0xE0 then 0x13
     else if b < 0xED then 0x03
     else if b = 0xED then 0x23
     else if b < 0xF0 then 0x03
     else if b = 0xF0 then 0x34
     else if b < 0xF4 then 0x04
     else if b = 0xF4 then 0x44
     else 0xF1)"

text \<open>The admissible range of the second byte, per entry of \<^verbatim>\<open>acceptRanges\<close>.\<close>

definition acceptRanges :: "nat \<Rightarrow> nat \<times> nat" where
  "acceptRanges i =
    (if i = 0 then (0x80, 0xBF)
     else if i = 1 then (0xA0, 0xBF)
     else if i = 2 then (0x80, 0x9F)
     else if i = 3 then (0x90, 0xBF)
     else if i = 4 then (0x80, 0x8F)
     else (0, 0))"

text \<open>
  \<^verbatim>\<open>utf8.DecodeRuneInString\<close>: the first rune of \<open>s\<close> and its width in bytes. An
  invalid or truncated encoding gives \<open>(RuneError, 1)\<close>, the empty string
  \<open>(RuneError, 0)\<close>. The masks \<^verbatim>\<open>0x1F\<close>, \<^verbatim>\<open>0x0F\<close>, \<^verbatim>\<open>0x07\<close>, \<^verbatim>\<open>0x3F\<close> and the shifts
  are written as \<open>mod\<close> and multiplication.
\<close>

definition DecodeRuneInString :: "string \<Rightarrow> rune \<times> nat" where
  "DecodeRuneInString s =
    (let n = length s in
     if n < 1 then (RuneError, 0)
     else
       let s0 = byte (s ! 0); x = first s0 in
       if x \<ge> 0xF0 then ((if x = 0xF1 then RuneError else int s0), 1)
       else
         let sz = x mod 8; accept = acceptRanges (x div 16) in
         if n < sz then (RuneError, 1)
         else
           let s1 = byte (s ! 1) in
           if s1 < fst accept \<or> snd accept < s1 then (RuneError, 1)
           else if sz \<le> 2 then (int ((s0 mod 32) * 64 + s1 mod 64), 2)
           else
             let s2 = byte (s ! 2) in
             if s2 < 0x80 \<or> 0xBF < s2 then (RuneError, 1)
             else if sz \<le> 3
               then (int ((s0 mod 16) * 4096 + (s1 mod 64) * 64 + s2 mod 64), 3)
             else
               let s3 = byte (s ! 3) in
               if s3 < 0x80 \<or> 0xBF < s3 then (RuneError, 1)
               else (int ((s0 mod 8) * 262144 + (s1 mod 64) * 4096
                          + (s2 mod 64) * 64 + s3 mod 64), 4))"

text \<open>\<^verbatim>\<open>utf8.RuneStart\<close>: the byte is not a continuation byte.\<close>

definition RuneStart :: "nat \<Rightarrow> bool" where
  "RuneStart b = (\<not> (0x80 \<le> b \<and> b < 0xC0))"

text \<open>
  The backward scan of \<^verbatim>\<open>utf8.DecodeLastRuneInString\<close>:
  \<^verbatim>\<open>for start--; start >= lim; start-- { if RuneStart(s[start]) { break } }\<close>,
  entered here after the initial decrement.
\<close>

function DecodeLastRune_scan :: "string \<Rightarrow> int \<Rightarrow> int \<Rightarrow> int" where
  "DecodeLastRune_scan s lim start =
    (if start \<ge> lim
     then (if RuneStart (byte (s ! nat start)) then start
           else DecodeLastRune_scan s lim (start - 1))
     else start)"
  by pat_completeness auto
termination
  by (relation "measure (\<lambda>(s, lim, start). nat (start - lim + 1))") auto

declare DecodeLastRune_scan.simps [simp del]

definition DecodeLastRuneInString :: "string \<Rightarrow> rune \<times> nat" where
  "DecodeLastRuneInString s =
    (let end = int (length s) in
     if end = 0 then (RuneError, 0)
     else
       let start = end - 1; r = int (byte (s ! nat start)) in
       if r < int RuneSelf then (r, 1)
       else
         let lim = (if end - int UTFMax < 0 then 0 else end - int UTFMax);
             start = DecodeLastRune_scan s lim (start - 1);
             start = (if start < 0 then 0 else start);
             (r, wid) = DecodeRuneInString (drop (nat start) s)
         in if start + int wid \<noteq> end then (RuneError, 1) else (r, wid))"

text \<open>
  \<^verbatim>\<open>unicode.IsSpace\<close>. In Latin-1 the spaces are listed; above it the table
  \<^verbatim>\<open>White_Space\<close> decides.
\<close>

definition White_Space_above_Latin1 :: "rune \<Rightarrow> bool" where
  "White_Space_above_Latin1 r =
    (r = 0x1680 \<or> (0x2000 \<le> r \<and> r \<le> 0x200A) \<or> (0x2028 \<le> r \<and> r \<le> 0x2029)
     \<or> r = 0x202F \<or> r = 0x205F \<or> r = 0x3000)"

definition IsSpace :: "rune \<Rightarrow> bool" where
  "IsSpace r =
    (if 0 \<le> r \<and> r \<le> 0xFF
     then (r = 0x09 \<or> r = 0x0A \<or> r = 0x0B \<or> r = 0x0C \<or> r = 0x0D \<or> r = 0x20
           \<or> r = 0x85 \<or> r = 0xA0)
     else White_Space_above_Latin1 r)"

text \<open>Every decoded rune of a non-empty string is at least one byte wide.\<close>

lemma DecodeRuneInString_size_pos:
  assumes "s \<noteq> []"
  shows "1 \<le> snd (DecodeRuneInString s)"
  using assms by (simp add: DecodeRuneInString_def Let_def)

lemma DecodeLastRune_scan_le: "DecodeLastRune_scan s lim start \<le> start"
proof (induction s lim start rule: DecodeLastRune_scan.induct)
  case (1 s lim start)
  then show ?case by (subst DecodeLastRune_scan.simps) auto
qed

lemma DecodeLastRuneInString_size_pos:
  assumes "s \<noteq> []"
  shows "1 \<le> snd (DecodeLastRuneInString s)"
proof -
  define e where "e = int (length s)"
  define lim where "lim = (if e - int UTFMax < 0 then 0 else e - int UTFMax)"
  define st where
    "st = (let x = DecodeLastRune_scan s lim (e - 1 - 1) in if x < 0 then 0 else x)"
  from assms have "0 < e" by (simp add: e_def)
  with DecodeLastRune_scan_le [of s lim "e - 1 - 1"] have "st < e" "0 \<le> st"
    by (auto simp: st_def Let_def)
  then have "drop (nat st) s \<noteq> []" by (simp add: e_def)
  from DecodeRuneInString_size_pos [OF this]
  have pos: "1 \<le> snd (DecodeRuneInString (drop (nat st) s))" .
  have eq: "DecodeLastRuneInString s =
      (if int (byte (s ! nat (e - 1))) < int RuneSelf then (int (byte (s ! nat (e - 1))), 1)
       else (case DecodeRuneInString (drop (nat st) s) of
               (r, wid) \<Rightarrow> if st + int wid \<noteq> e then (RuneError, 1) else (r, wid)))"
    using \<open>0 < e\<close> unfolding DecodeLastRuneInString_def Let_def st_def lim_def e_def
    by simp
  show ?thesis using pos by (auto simp: eq split: prod.splits)
qed

section \<open>Standard library: \<^verbatim>\<open>strings\<close>\<close>

text \<open>
  \<^verbatim>\<open>indexFunc\<close>: \<^verbatim>\<open>for i, r := range s { if f(r) == truth { return i } }; return -1\<close>.
  Ranging over a string decodes one rune at a time, an invalid byte as \<open>RuneError\<close> of
  width 1; \<open>i\<close> is the byte offset of the rune.
\<close>

function indexFunc_loop :: "string \<Rightarrow> (rune \<Rightarrow> bool) \<Rightarrow> bool \<Rightarrow> nat \<Rightarrow> int" where
  "indexFunc_loop s f truth i =
    (if i < length s
     then (case DecodeRuneInString (drop i s) of
             (r, wid) \<Rightarrow>
               if f r = truth then int i else indexFunc_loop s f truth (i + wid))
     else - 1)"
  by pat_completeness auto
termination
proof (relation "measure (\<lambda>(s, f, truth, i). length s - i)", goal_cases)
  case 1
  show ?case by simp
next
  case (2 s f truth i r wid)
  then have ne: "drop i s \<noteq> []" by simp
  from 2 have "wid = snd (DecodeRuneInString (drop i s))" by (metis snd_conv)
  with DecodeRuneInString_size_pos [OF ne] have "1 \<le> wid" by simp
  with 2 show ?case by simp
qed

declare indexFunc_loop.simps [simp del]

definition indexFunc :: "string \<Rightarrow> (rune \<Rightarrow> bool) \<Rightarrow> bool \<Rightarrow> int" where
  "indexFunc s f truth = indexFunc_loop s f truth 0"

text \<open>
  \<^verbatim>\<open>lastIndexFunc\<close>:
  \<^verbatim>\<open>for i := len(s); i > 0; { r, size := utf8.DecodeLastRuneInString(s[0:i]); i -= size;
  if f(r) == truth { return i } }; return -1\<close>.
  The loop only ever reads the prefix \<^verbatim>\<open>s[0:i]\<close>; the model carries that prefix \<open>t\<close>,
  so that \<open>i\<close> is its length.
\<close>

function lastIndexFunc_loop :: "string \<Rightarrow> (rune \<Rightarrow> bool) \<Rightarrow> bool \<Rightarrow> int" where
  "lastIndexFunc_loop t f truth =
    (if length t > 0
     then (case DecodeLastRuneInString t of
             (r, wid) \<Rightarrow>
               let i = int (length t) - int wid in
               if f r = truth then i
               else lastIndexFunc_loop (take (nat i) t) f truth)
     else - 1)"
  by pat_completeness auto
termination
proof (relation "measure (\<lambda>(t, f, truth). length t)", goal_cases)
  case 1
  show ?case by simp
next
  case (2 t f truth r wid i)
  then have ne: "t \<noteq> []" by simp
  from 2 have "wid = snd (DecodeLastRuneInString t)" by (metis snd_conv)
  with DecodeLastRuneInString_size_pos [OF ne] have "1 \<le> wid" by simp
  moreover from ne have "0 < length t" by simp
  ultimately have "nat (int (length t) - int wid) < length t" by linarith
  with 2 show ?case by simp
qed

declare lastIndexFunc_loop.simps [simp del]

definition lastIndexFunc :: "string \<Rightarrow> (rune \<Rightarrow> bool) \<Rightarrow> bool \<Rightarrow> int" where
  "lastIndexFunc s f truth = lastIndexFunc_loop s f truth"

definition TrimLeftFunc :: "string \<Rightarrow> (rune \<Rightarrow> bool) \<Rightarrow> string" where
  "TrimLeftFunc s f =
    (let i = indexFunc s f False in
     if i = - 1 then [] else drop (nat i) s)"

definition TrimRightFunc :: "string \<Rightarrow> (rune \<Rightarrow> bool) \<Rightarrow> string" where
  "TrimRightFunc s f =
    (let i = lastIndexFunc s f False;
         i = (if i \<ge> 0 \<and> byte (s ! nat i) \<ge> RuneSelf
              then i + int (snd (DecodeRuneInString (drop (nat i) s)))
              else i + 1)
     in take (nat i) s)"

definition TrimFunc :: "string \<Rightarrow> (rune \<Rightarrow> bool) \<Rightarrow> string" where
  "TrimFunc s f = TrimRightFunc (TrimLeftFunc s f) f"

text \<open>The table \<^verbatim>\<open>asciiSpace\<close>: tab, newline, vertical tab, form feed, return, space.\<close>

definition asciiSpace :: "nat \<Rightarrow> bool" where
  "asciiSpace c = (c = 0x09 \<or> c = 0x0A \<or> c = 0x0B \<or> c = 0x0C \<or> c = 0x0D \<or> c = 0x20)"

text \<open>
  \<^verbatim>\<open>strings.TrimSpace\<close>. The second loop moves \<open>stop\<close> down from the end over ASCII
  spaces and hands over to \<open>TrimRightFunc\<close> at the first non-ASCII byte.
\<close>

function TrimSpace_stop :: "string \<Rightarrow> nat \<Rightarrow> nat \<Rightarrow> string" where
  "TrimSpace_stop s start stop =
    (if stop > start
     then (let c = byte (s ! (stop - 1)) in
           if c \<ge> RuneSelf then TrimRightFunc (drop start (take stop s)) IsSpace
           else if \<not> asciiSpace c then drop start (take stop s)
           else TrimSpace_stop s start (stop - 1))
     else drop start (take stop s))"
  by pat_completeness auto
termination
  by (relation "measure (\<lambda>(s, start, stop). stop)") auto

declare TrimSpace_stop.simps [simp del]

text \<open>
  The first loop moves \<open>start\<close> up over ASCII spaces and hands over to \<open>TrimFunc\<close> at
  the first non-ASCII byte.
\<close>

function TrimSpace_start :: "string \<Rightarrow> nat \<Rightarrow> string" where
  "TrimSpace_start s start =
    (if start < length s
     then (let c = byte (s ! start) in
           if c \<ge> RuneSelf then TrimFunc (drop start s) IsSpace
           else if \<not> asciiSpace c then TrimSpace_stop s start (length s)
           else TrimSpace_start s (start + 1))
     else TrimSpace_stop s start (length s))"
  by pat_completeness auto
termination
  by (relation "measure (\<lambda>(s, start). length s - start)") auto

declare TrimSpace_start.simps [simp del]

definition TrimSpace :: "string \<Rightarrow> string" where
  "TrimSpace s = TrimSpace_start s 0"

text \<open>\<^verbatim>\<open>strings.IndexByte\<close>: the index of the first \<open>c\<close> in \<open>s\<close>, or \<open>-1\<close>.\<close>

fun IndexByte :: "string \<Rightarrow> char \<Rightarrow> int" where
  "IndexByte [] c = - 1"
| "IndexByte (x # xs) c =
    (if x = c then 0
     else (let i = IndexByte xs c in if i < 0 then - 1 else i + 1))"

lemma IndexByte_le_length: "IndexByte s c < int (length s)"
  by (induction s) (auto simp: Let_def)

text \<open>
  \<^verbatim>\<open>strings.Split(s, sep)\<close> for a separator of one byte (the source only splits at
  \<^verbatim>\<open>","\<close>): the loop of \<^verbatim>\<open>genSplit\<close> cuts \<open>s\<close> at each separator and ends with the
  rest, so the result has one more element than \<open>s\<close> has separators.
\<close>

function Split :: "string \<Rightarrow> char \<Rightarrow> string list" where
  "Split s sep =
    (let m = IndexByte s sep in
     if m < 0 then [s]
     else take (nat m) s # Split (drop (nat m + 1) s) sep)"
  by pat_completeness auto
termination
proof (relation "measure (\<lambda>(s, sep). length s)", goal_cases)
  case 1
  show ?case by simp
next
  case (2 s sep m)
  with IndexByte_le_length [of s sep] show ?case by auto
qed

declare Split.simps [simp del]

section \<open>Standard library: \<^verbatim>\<open>strconv\<close>\<close>

definition ErrSyntax :: error where
  "ErrSyntax = ErrorString ''invalid syntax''"

definition ErrRange :: error where
  "ErrRange = ErrorString ''value out of range''"

text \<open>
  The digit loop of \<^verbatim>\<open>strconv.ParseUint(s, 10, 64)\<close>: a byte that is not a decimal
  digit is a syntax error; a value that leaves \<^verbatim>\<open>uint64\<close> is a range error. The
  accumulator is an unbounded integer and the overflow tests are written out.
\<close>

fun ParseUint_loop :: "string \<Rightarrow> int \<Rightarrow> error + int" where
  "ParseUint_loop [] n = Inr n"
| "ParseUint_loop (c # cs) n =
    (if \<not> (0x30 \<le> byte c \<and> byte c \<le> 0x39) then Inl ErrSyntax
     else if n \<ge> (2 ^ 64 - 1) div 10 + 1 then Inl ErrRange
     else (let n1 = n * 10 + int (byte c - 0x30) in
           if n1 > 2 ^ 64 - 1 then Inl ErrRange else ParseUint_loop cs n1))"

definition ParseUint :: "string \<Rightarrow> error + int" where
  "ParseUint s = (if s = [] then Inl ErrSyntax else ParseUint_loop s 0)"

text \<open>
  \<^verbatim>\<open>strconv.ParseInt(s, 10, 0)\<close> with a 64-bit \<^verbatim>\<open>int\<close>. A range error of
  \<open>ParseUint\<close> stays a range error.
\<close>

definition ParseInt :: "string \<Rightarrow> error + int" where
  "ParseInt s =
    (if s = [] then Inl ErrSyntax
     else
       let neg = (hd s = CHR ''-'');
           s' = (if hd s = CHR ''+'' \<or> hd s = CHR ''-'' then tl s else s)
       in case ParseUint s' of
            Inl e \<Rightarrow> Inl e
          | Inr un \<Rightarrow>
              if \<not> neg \<and> un \<ge> 2 ^ 63 then Inl ErrRange
              else if neg \<and> un > 2 ^ 63 then Inl ErrRange
              else Inr (if neg then - un else un))"

text \<open>
  The digit loop of the fast path of \<^verbatim>\<open>strconv.Atoi\<close>:
  \<^verbatim>\<open>ch -= '0'; if ch > 9 { return 0, syntaxError } ; n = n*10 + int(ch)\<close>, the
  subtraction on bytes wrapping around.
\<close>

fun Atoi_loop :: "string \<Rightarrow> int \<Rightarrow> error + int" where
  "Atoi_loop [] n = Inr n"
| "Atoi_loop (c # cs) n =
    (let ch = (byte c + 256 - 0x30) mod 256 in
     if ch > 9 then Inl ErrSyntax else Atoi_loop cs (n * 10 + int ch))"

text \<open>
  \<^verbatim>\<open>strconv.Atoi\<close> for a 64-bit \<^verbatim>\<open>int\<close>: strings of 1 to 18 bytes take the fast
  path, which cannot overflow; all others go through \<open>ParseInt\<close>.
\<close>

definition Atoi :: "string \<Rightarrow> error + int" where
  "Atoi s =
    (let sLen = length s in
     if 0 < sLen \<and> sLen < 19
     then
       let s' = (if hd s = CHR ''-'' \<or> hd s = CHR ''+'' then tl s else s) in
       if (hd s = CHR ''-'' \<or> hd s = CHR ''+'') \<and> length s' < 1 then Inl ErrSyntax
       else case Atoi_loop s' 0 of
              Inl e \<Rightarrow> Inl e
            | Inr n \<Rightarrow> Inr (if hd s = CHR ''-'' then - n else n)
     else ParseInt s)"

section \<open>Data model\<close>

text \<open>A \<^verbatim>\<open>float64\<close> is its IEEE 754 bit pattern; the service never computes with one.\<close>

type_synonym float64 = "64 word"

text \<open>
  What \<^verbatim>\<open>encoding/json\<close> stores in an \<^verbatim>\<open>interface{}\<close>: \<^verbatim>\<open>nil\<close>, \<^verbatim>\<open>bool\<close>,
  \<^verbatim>\<open>float64\<close>, \<^verbatim>\<open>string\<close>, \<^verbatim>\<open>[]interface{}\<close> or \<^verbatim>\<open>map[string]interface{}\<close>.
\<close>

datatype iface =
    INil
  | IBool bool
  | IFloat float64
  | IString string
  | IArray "iface list"
  | IObject "(string \<times> iface) list"

record LocalizedString =
  En :: string
  Ar :: string

record Coordinates =
  Latitude :: float64
  Longitude :: float64

text \<open>Go's \<^verbatim>\<open>int\<close> fields hold integers; no arithmetic is done on them.\<close>

record ExhibitDTO =
  ID :: int
  SiteName :: LocalizedString
  SiteBriefDescription :: LocalizedString
  NameEn :: string
  NameAr :: string
  Name :: LocalizedString
  BriefDescription :: LocalizedString
  GeneratedDescription :: LocalizedString
  ArtistDescription :: LocalizedString
  ArtistName :: LocalizedString
  LocationDescription :: LocalizedString
  Type :: string
  ImageURL :: string
  VideoURL :: string
  RelevantLink :: string
  AudioGuideLink :: "string option"
  LocationURL :: string
  Tags :: "string slice"
  Coords :: Coordinates
  Ownership :: string
  RecreationLevel :: string

record Museum =
  Slug :: string
  Label :: string
  LabelEN :: string
  LabelAR :: string

record Weekday =
  Number :: int
  Name :: string

record OpeningTime =
  OpeningAt :: string
  ClosingAt :: string
  Weekday :: Weekday

record FocalPoint =
  X :: int
  Y :: int

record ObjectImage =
  URL :: string
  Width :: int
  Height :: int
  FocalPoint :: FocalPoint
  AltTextEN :: string
  AltTextAR :: string
  CreditLineEN :: string
  CreditLineAR :: string

record ObjectImages =
  Original :: "ObjectImage slice"
  Card :: "ObjectImage slice"

record ArtefactDTO =
  ObjectNumber :: string
  TitleEN :: string
  TitleAR :: string
  ObjectNameEN :: string
  ObjectNameAR :: string
  ArtistEN :: string
  ArtistAR :: string
  Museum :: Museum
  OpeningTimes :: "OpeningTime slice"
  SummaryEN :: string
  SummaryAR :: string
  ObjectImages :: ObjectImages
  RelatedWebpages :: "iface slice"
  Object3dEmbed :: "iface slice"
  Coords :: Coordinates

record QMResponse =
  Count :: int
  Next :: string
  Previous :: iface
  Results :: "ArtefactDTO slice"

section \<open>Environment\<close>

text \<open>
  What a request sees of the operating system: \<open>Stat_ok p\<close> says that
  \<^verbatim>\<open>os.Stat(p)\<close> returns no error; \<open>Executable\<close> and \<open>Getwd\<close> are the results of
  \<^verbatim>\<open>os.Executable()\<close> and \<^verbatim>\<open>os.Getwd()\<close>; \<open>ReadFile\<close> is \<^verbatim>\<open>os.ReadFile\<close>.
\<close>

record os =
  Stat_ok :: "string \<Rightarrow> bool"
  Executable :: "error + string"
  Getwd :: "error + string"
  ReadFile :: "string \<Rightarrow> error + string"

text \<open>
  Library functions whose code is not part of the repository are parameters:
  \<^verbatim>\<open>filepath.Dir\<close>, \<^verbatim>\<open>filepath.Join\<close> (of two elements), \<^verbatim>\<open>json.Unmarshal\<close> at the two
  types the handlers decode into, and \<^verbatim>\<open>encoding/json\<close>'s encoding of one record.
  Four more give the text of a redirection: \<open>URL_String p q\<close> is
  \<^verbatim>\<open>(&url.URL{Path: p, RawQuery: q}).String()\<close>, \<open>Redirect_url old u\<close> is the address
  \<^verbatim>\<open>http.Redirect\<close> makes of \<open>u\<close> for a request with path \<open>old\<close> (parsed, made absolute,
  cleaned), \<open>hexEscapeNonASCII\<close> and \<open>htmlEscape\<close> are the two escapings of
  \<^verbatim>\<open>net/http\<close>.
\<close>

record platform =
  filepath_Dir :: "string \<Rightarrow> string"
  filepath_Join :: "string \<Rightarrow> string \<Rightarrow> string"
  Unmarshal_exhibits :: "string \<Rightarrow> error + ExhibitDTO slice"
  Unmarshal_QMResponse :: "string \<Rightarrow> error + QMResponse"
  Marshal_ExhibitDTO :: "ExhibitDTO \<Rightarrow> error + string"
  Marshal_ArtefactDTO :: "ArtefactDTO \<Rightarrow> error + string"
  URL_String :: "string \<Rightarrow> string \<Rightarrow> string"
  Redirect_url :: "string \<Rightarrow> string \<Rightarrow> string"
  hexEscapeNonASCII :: "string \<Rightarrow> string"
  htmlEscape :: "string \<Rightarrow> string"

section \<open>\<^verbatim>\<open>findFile\<close>\<close>

text \<open>
  \<^verbatim>\<open>findFile\<close> returns a path and an error; \<open>None\<close> is Go's \<^verbatim>\<open>nil\<close> error.
\<close>

definition findFile :: "platform \<Rightarrow> os \<Rightarrow> string \<Rightarrow> string \<times> error option" where
  "findFile pf os filename =
    (if Stat_ok os filename then (filename, None)
     else
       case (case Executable os of
               Inr execPath \<Rightarrow>
                 (let execDir = filepath_Dir pf execPath;
                      path = filepath_Join pf execDir filename
                  in if Stat_ok os path then Some path else None)
             | Inl err \<Rightarrow> None) of
         Some path \<Rightarrow> (path, None)
       | None \<Rightarrow>
           (case (case Getwd os of
                    Inr wd \<Rightarrow>
                      (let path = filepath_Join pf wd filename
                       in if Stat_ok os path then Some path else None)
                  | Inl err \<Rightarrow> None) of
              Some path \<Rightarrow> (path, None)
            | None \<Rightarrow> (filename, Some ErrNotExist)))"

section \<open>\<^verbatim>\<open>net/http\<close>\<close>

text \<open>
  A request as the server and the handlers read it: method, \<^verbatim>\<open>URL.Path\<close>,
  \<^verbatim>\<open>URL.RawQuery\<close>, the protocol version, the remote address and the parsed query
  \<^verbatim>\<open>URL.Query()\<close>, a \<^verbatim>\<open>url.Values\<close> (\<^verbatim>\<open>map[string][]string\<close>). The request target
  \<^verbatim>\<open>*\<close> is the one that \<^verbatim>\<open>url.ParseRequestURI\<close> gives the path \<^verbatim>\<open>*\<close>.
\<close>

type_synonym Values = "string \<rightharpoonup> string list"

record Request =
  Method :: string
  Path :: string
  RemoteAddr :: string
  Query :: Values
  RawQuery :: string
  ProtoMajor :: nat
  ProtoMinor :: nat

text \<open>\<^verbatim>\<open>Values.Get\<close>: the first value of the key, or the empty string.\<close>

definition Values_Get :: "Values \<Rightarrow> string \<Rightarrow> string" where
  "Values_Get v key =
    (case v key of
       None \<Rightarrow> []
     | Some vs \<Rightarrow> (if length vs = 0 then [] else vs ! 0))"

text \<open>
  The state of a \<^verbatim>\<open>http.ResponseWriter\<close>: the header map the handler has set, whether
  the status line has been written, the status code, and the body written so far.
\<close>

record ResponseWriter =
  header :: "string \<rightharpoonup> string list"
  wroteHeader :: bool
  status :: nat
  body :: string

definition newResponseWriter :: ResponseWriter where
  "newResponseWriter = \<lparr>header = Map.empty, wroteHeader = False, status = 0, body = []\<rparr>"

text \<open>
  \<^verbatim>\<open>w.Header().Set(key, value)\<close>, for keys in canonical form as the source writes
  them. Headers set after the status line has been written are not sent.
\<close>

definition Header_Set :: "ResponseWriter \<Rightarrow> string \<Rightarrow> string \<Rightarrow> ResponseWriter" where
  "Header_Set w key val =
    (if wroteHeader w then w else w\<lparr>header := (header w)(key \<mapsto> [val])\<rparr>)"

definition WriteHeader :: "ResponseWriter \<Rightarrow> nat \<Rightarrow> ResponseWriter" where
  "WriteHeader w code =
    (if wroteHeader w then w else w\<lparr>wroteHeader := True, status := code\<rparr>)"

text \<open>\<^verbatim>\<open>w.Write(b)\<close> writes status 200 first if no status has been written.\<close>

definition Write :: "ResponseWriter \<Rightarrow> string \<Rightarrow> ResponseWriter" where
  "Write w b =
    (let w = (if wroteHeader w then w else WriteHeader w 200)
     in w\<lparr>body := body w @ b\<rparr>)"

text \<open>The server completes a response whose handler wrote nothing with status 200.\<close>

definition finishRequest :: "ResponseWriter \<Rightarrow> ResponseWriter" where
  "finishRequest w = (if wroteHeader w then w else WriteHeader w 200)"

definition StatusOK :: nat where
  "StatusOK = 200"

definition StatusInternalServerError :: nat where
  "StatusInternalServerError = 500"

text \<open>
  \<^verbatim>\<open>http.Error\<close>: plain-text content type, \<^verbatim>\<open>nosniff\<close>, the status code, and the
  message followed by a newline.
\<close>

definition http_Error :: "ResponseWriter \<Rightarrow> string \<Rightarrow> nat \<Rightarrow> ResponseWriter" where
  "http_Error w err code =
    (let w = Header_Set w ''Content-Type'' ''text/plain; charset=utf-8'';
         w = Header_Set w ''X-Content-Type-Options'' ''nosniff'';
         w = WriteHeader w code
     in Write w (err @ [CHR 0x0A]))"

section \<open>\<^verbatim>\<open>encoding/json\<close>: encoding a slice\<close>

text \<open>The elements are encoded in order; the first error ends the encoding.\<close>

fun marshal_elems :: "('a \<Rightarrow> error + string) \<Rightarrow> 'a list \<Rightarrow> error + string list" where
  "marshal_elems m [] = Inr []"
| "marshal_elems m (x # xs) =
    (case m x of
       Inl e \<Rightarrow> Inl e
     | Inr b \<Rightarrow> (case marshal_elems m xs of Inl e \<Rightarrow> Inl e | Inr bs \<Rightarrow> Inr (b # bs)))"

fun join_comma :: "string list \<Rightarrow> string" where
  "join_comma [] = []"
| "join_comma [b] = b"
| "join_comma (b # bs) = b @ '','' @ join_comma bs"

text \<open>
  The text \<^verbatim>\<open>Encoder.Encode\<close> produces for a slice: \<^verbatim>\<open>null\<close> for a nil slice,
  otherwise the elements between brackets, separated by commas; then a newline.
\<close>

definition Encode_slice :: "('a \<Rightarrow> error + string) \<Rightarrow> 'a slice \<Rightarrow> error + string" where
  "Encode_slice m v =
    (case v of
       NilSlice \<Rightarrow> Inr (''null'' @ [CHR 0x0A])
     | Slice xs \<Rightarrow>
         (case marshal_elems m xs of
            Inl e \<Rightarrow> Inl e
          | Inr bs \<Rightarrow> Inr (''['' @ join_comma bs @ '']'' @ [CHR 0x0A])))"

text \<open>
  \<^verbatim>\<open>json.NewEncoder(w).Encode(v)\<close>: an encoding error is returned before anything
  is written. Errors of the network write are not modelled.
\<close>

definition Encoder_Encode ::
  "('a \<Rightarrow> error + string) \<Rightarrow> ResponseWriter \<Rightarrow> 'a slice \<Rightarrow> ResponseWriter \<times> error option" where
  "Encoder_Encode m w v =
    (case Encode_slice m v of
       Inl e \<Rightarrow> (w, Some e)
     | Inr b \<Rightarrow> (Write w b, None))"

section \<open>The handlers\<close>

text \<open>
  The calls to the \<^verbatim>\<open>log\<close> package, with the text they print (without the logger's
  time stamp). \<^verbatim>\<open>log.Printf\<close> prints and returns; \<^verbatim>\<open>log.Fatal\<close> prints and ends the
  process with \<^verbatim>\<open>os.Exit(1)\<close>. The source calls \<^verbatim>\<open>log.Fatal\<close> in one place, in
  \<^verbatim>\<open>main\<close>, when \<^verbatim>\<open>http.ListenAndServe\<close> returns.
\<close>

datatype log_call = Printf string | Fatal string

text \<open>
  A handler is run on a response writer and a request; it returns the writer and the
  calls to the logger it made, in order.
\<close>

definition rootHandler :: "ResponseWriter \<Rightarrow> Request \<Rightarrow> ResponseWriter \<times> log_call list" where
  "rootHandler w r =
    (let w = Header_Set w ''Content-Type'' ''text/plain'';
         w = WriteHeader w StatusOK;
         w = Write w ''Hello, world!''
     in (w, []))"

text \<open>
  The loop that parses the ids:
  \<^verbatim>\<open>for _, idStr := range strings.Split(idsParam, ",") { id, err :=
  strconv.Atoi(strings.TrimSpace(idStr)); if err == nil { targetIDs = append(targetIDs, id) } }\<close>.
\<close>

fun exhibits_parse_loop :: "string list \<Rightarrow> int slice \<Rightarrow> int slice" where
  "exhibits_parse_loop [] targetIDs = targetIDs"
| "exhibits_parse_loop (idStr # rest) targetIDs =
    (case Atoi (TrimSpace idStr) of
       Inr n \<Rightarrow> exhibits_parse_loop rest (append_slice targetIDs n)
     | Inl err \<Rightarrow> exhibits_parse_loop rest targetIDs)"

text \<open>
  The inner loop of the filter:
  \<^verbatim>\<open>for _, targetID := range targetIDs { if exhibit.ID == targetID { filteredExhibits =
  append(filteredExhibits, exhibit); break } }\<close>.
\<close>

fun exhibits_match_loop :: "ExhibitDTO \<Rightarrow> int list \<Rightarrow> ExhibitDTO slice \<Rightarrow> ExhibitDTO slice" where
  "exhibits_match_loop exhibit [] filteredExhibits = filteredExhibits"
| "exhibits_match_loop exhibit (targetID # rest) filteredExhibits =
    (if ID exhibit = targetID then append_slice filteredExhibits exhibit
     else exhibits_match_loop exhibit rest filteredExhibits)"

text \<open>The outer loop: \<^verbatim>\<open>for _, exhibit := range exhibits { ... }\<close>.\<close>

fun exhibits_filter_loop :: "ExhibitDTO list \<Rightarrow> int list \<Rightarrow> ExhibitDTO slice \<Rightarrow> ExhibitDTO slice" where
  "exhibits_filter_loop [] targetIDs filteredExhibits = filteredExhibits"
| "exhibits_filter_loop (exhibit # rest) targetIDs filteredExhibits =
    exhibits_filter_loop rest targetIDs (exhibits_match_loop exhibit targetIDs filteredExhibits)"

definition exhibitsHandler ::
  "platform \<Rightarrow> os \<Rightarrow> ResponseWriter \<Rightarrow> Request \<Rightarrow> ResponseWriter \<times> log_call list" where
  "exhibitsHandler pf os w r =
    (let logged =
           [Printf (''Received request: '' @ Method r @ '' '' @ Path r @ '' from '' @ RemoteAddr r)]
     in
     case findFile pf os ''exhibits.json'' of
       (filePath, Some err) \<Rightarrow>
         (http_Error w ''Error finding exhibits.json'' StatusInternalServerError,
          logged @ [Printf (''Error finding file: '' @ Error err)])
     | (filePath, None) \<Rightarrow>
         (case ReadFile os filePath of
            Inl err \<Rightarrow>
              (http_Error w ''Error reading exhibits.json'' StatusInternalServerError,
               logged @ [Printf (''Error reading file '' @ filePath @ '': '' @ Error err)])
          | Inr data \<Rightarrow>
              (case Unmarshal_exhibits pf data of
                 Inl err \<Rightarrow>
                   (http_Error w ''Error parsing exhibits.json'' StatusInternalServerError,
                    logged @ [Printf (''Error unmarshalling json: '' @ Error err)])
               | Inr exhibits \<Rightarrow>
                   (let idsParam = Values_Get (Query r) ''ids'';
                        filteredExhibits =
                          (if idsParam \<noteq> []
                           then
                             (let targetIDs =
                                    exhibits_parse_loop (Split idsParam CHR '','') NilSlice
                              in exhibits_filter_loop (elems exhibits) (elems targetIDs) NilSlice)
                           else exhibits);
                        w = Header_Set w ''Access-Control-Allow-Origin'' ''*'';
                        w = Header_Set w ''Access-Control-Allow-Methods'' ''GET, OPTIONS'';
                        w = Header_Set w ''Access-Control-Allow-Headers'' ''Content-Type'';
                        w = Header_Set w ''Content-Type'' ''application/json''
                    in case Encoder_Encode (Marshal_ExhibitDTO pf) w filteredExhibits of
                         (w, Some err) \<Rightarrow>
                           (w, logged @ [Printf (''Error encoding response: '' @ Error err)])
                       | (w, None) \<Rightarrow> (w, logged)))))"

text \<open>
  The loop that collects the object numbers:
  \<^verbatim>\<open>for _, objNum := range strings.Split(objectNumbersParam, ",") { targetObjectNumbers =
  append(targetObjectNumbers, strings.TrimSpace(objNum)) }\<close>.
\<close>

fun artefacts_parse_loop :: "string list \<Rightarrow> string slice \<Rightarrow> string slice" where
  "artefacts_parse_loop [] targetObjectNumbers = targetObjectNumbers"
| "artefacts_parse_loop (objNum # rest) targetObjectNumbers =
    artefacts_parse_loop rest (append_slice targetObjectNumbers (TrimSpace objNum))"

text \<open>
  \<^verbatim>\<open>for _, targetObjNum := range targetObjectNumbers { if artefact.ObjectNumber ==
  targetObjNum { filteredArtefacts = append(filteredArtefacts, artefact); break } }\<close>.
\<close>

fun artefacts_match_loop ::
  "ArtefactDTO \<Rightarrow> string list \<Rightarrow> ArtefactDTO slice \<Rightarrow> ArtefactDTO slice" where
  "artefacts_match_loop artefact [] filteredArtefacts = filteredArtefacts"
| "artefacts_match_loop artefact (targetObjNum # rest) filteredArtefacts =
    (if ObjectNumber artefact = targetObjNum then append_slice filteredArtefacts artefact
     else artefacts_match_loop artefact rest filteredArtefacts)"

text \<open>\<^verbatim>\<open>for _, artefact := range qmResponse.Results { ... }\<close>.\<close>

fun artefacts_filter_loop ::
  "ArtefactDTO list \<Rightarrow> string list \<Rightarrow> ArtefactDTO slice \<Rightarrow> ArtefactDTO slice" where
  "artefacts_filter_loop [] targetObjectNumbers filteredArtefacts = filteredArtefacts"
| "artefacts_filter_loop (artefact # rest) targetObjectNumbers filteredArtefacts =
    artefacts_filter_loop rest targetObjectNumbers
      (artefacts_match_loop artefact targetObjectNumbers filteredArtefacts)"

definition artefactsHandler ::
  "platform \<Rightarrow> os \<Rightarrow> ResponseWriter \<Rightarrow> Request \<Rightarrow> ResponseWriter \<times> log_call list" where
  "artefactsHandler pf os w r =
    (let logged =
           [Printf (''Received request: '' @ Method r @ '' '' @ Path r @ '' from '' @ RemoteAddr r)]
     in
     case findFile pf os ''qm_data.json'' of
       (filePath, Some err) \<Rightarrow>
         (http_Error w (''Error finding `qm_data.json`: '' @ Error err) StatusInternalServerError,
          logged @ [Printf (''Error finding file: '' @ Error err)])
     | (filePath, None) \<Rightarrow>
         (case ReadFile os filePath of
            Inl err \<Rightarrow>
              (http_Error w (''Error reading qm_data.json: '' @ Error err)
                 StatusInternalServerError,
               logged @ [Printf (''Error reading file '' @ filePath @ '': '' @ Error err)])
          | Inr data \<Rightarrow>
              (case Unmarshal_QMResponse pf data of
                 Inl err \<Rightarrow>
                   (http_Error w (''Error parsing qm_data.json: '' @ Error err)
                      StatusInternalServerError,
                    logged @ [Printf (''Error unmarshalling json: '' @ Error err)])
               | Inr qmResponse \<Rightarrow>
                   (let objectNumbersParam = Values_Get (Query r) ''objectNumbers'';
                        filteredArtefacts =
                          (if objectNumbersParam \<noteq> []
                           then
                             (let targetObjectNumbers =
                                    artefacts_parse_loop (Split objectNumbersParam CHR '','')
                                      NilSlice
                              in artefacts_filter_loop (elems (Results qmResponse))
                                   (elems targetObjectNumbers) NilSlice)
                           else Results qmResponse);
                        w = Header_Set w ''Access-Control-Allow-Origin'' ''*'';
                        w = Header_Set w ''Access-Control-Allow-Methods'' ''GET, OPTIONS'';
                        w = Header_Set w ''Access-Control-Allow-Headers'' ''Content-Type'';
                        w = Header_Set w ''Content-Type'' ''application/json''
                    in case Encoder_Encode (Marshal_ArtefactDTO pf) w filteredArtefacts of
                         (w, Some err) \<Rightarrow>
                           (w, logged @ [Printf (''Error encoding response: '' @ Error err)])
                       | (w, None) \<Rightarrow> (w, logged)))))"

section \<open>The server\<close>

subsection \<open>\<^verbatim>\<open>path.Clean\<close> and \<^verbatim>\<open>cleanPath\<close>\<close>

text \<open>
  \<^verbatim>\<open>path.Clean\<close> on a rooted path, by its rules: the elements between slashes are read
  from the left; an empty element and \<^verbatim>\<open>.\<close> are dropped, \<^verbatim>\<open>..\<close> removes the element
  before it (and is dropped at the root), and the elements left are joined again
  behind the root.
\<close>

fun Clean_elems :: "string list \<Rightarrow> string list \<Rightarrow> string list" where
  "Clean_elems [] out = out"
| "Clean_elems (e # es) out =
    (if e = [] \<or> e = ''.'' then Clean_elems es out
     else if e = ''..'' then Clean_elems es (butlast out)
     else Clean_elems es (out @ [e]))"

fun Join_slash :: "string list \<Rightarrow> string" where
  "Join_slash [] = []"
| "Join_slash [e] = e"
| "Join_slash (e # es) = e @ ''/'' @ Join_slash es"

definition Clean_rooted :: "string \<Rightarrow> string" where
  "Clean_rooted p = CHR ''/'' # Join_slash (Clean_elems (Split p CHR ''/'') [])"

text \<open>
  \<^verbatim>\<open>cleanPath\<close> of \<^verbatim>\<open>net/http\<close>: the canonical form of a request path, rooted, and
  with the trailing slash of the path kept.
\<close>

definition cleanPath :: "string \<Rightarrow> string" where
  "cleanPath p =
    (if p = [] then ''/''
     else
       (let p = (if hd p \<noteq> CHR ''/'' then CHR ''/'' # p else p);
            np = Clean_rooted p
        in if last p = CHR ''/'' \<and> np \<noteq> ''/''
           then (if length p = length np + 1 \<and> prefix np p then p else np @ ''/'')
           else np))"

subsection \<open>The default \<^verbatim>\<open>ServeMux\<close>\<close>

definition StatusMovedPermanently :: nat where
  "StatusMovedPermanently = 301"

definition StatusBadRequest :: nat where
  "StatusBadRequest = 400"

definition StatusNotFound :: nat where
  "StatusNotFound = 404"

text \<open>The patterns \<^verbatim>\<open>main\<close> registers with \<^verbatim>\<open>http.HandleFunc\<close>.\<close>

definition patterns :: "string list" where
  "patterns = [''/'', ''/exhibits'', ''/artefacts'']"

text \<open>
  \<^verbatim>\<open>http.Redirect\<close> with \<^verbatim>\<open>StatusMovedPermanently\<close>, whose status text is
  \<^verbatim>\<open>Moved Permanently\<close>: the \<^verbatim>\<open>Location\<close> header, and a short body for a
  \<^verbatim>\<open>GET\<close> request that has no content type yet.
\<close>

definition Redirect ::
  "platform \<Rightarrow> ResponseWriter \<Rightarrow> Request \<Rightarrow> string \<Rightarrow> ResponseWriter" where
  "Redirect pf w r url =
    (let url = Redirect_url pf (Path r) url;
         hadCT = (header w ''Content-Type'' \<noteq> None);
         w = Header_Set w ''Location'' (hexEscapeNonASCII pf url);
         w = (if \<not> hadCT \<and> (Method r = ''GET'' \<or> Method r = ''HEAD'')
              then Header_Set w ''Content-Type'' ''text/html; charset=utf-8'' else w);
         w = WriteHeader w StatusMovedPermanently
     in if \<not> hadCT \<and> Method r = ''GET''
        then Write w (''<a href='' @ [CHR 0x22] @ htmlEscape pf url @ [CHR 0x22] @ ''>''
                      @ ''Moved Permanently'' @ ''</a>.'' @ [CHR 0x0A] @ [CHR 0x0A])
        else w)"

text \<open>\<^verbatim>\<open>http.NotFound\<close>.\<close>

definition NotFound :: "ResponseWriter \<Rightarrow> Request \<Rightarrow> ResponseWriter" where
  "NotFound w r = http_Error w ''404 page not found'' StatusNotFound"

text \<open>
  \<^verbatim>\<open>mux.shouldRedirectRLocked\<close>: a path that is not registered, while the path
  followed by a slash is. No pattern names a host.
\<close>

definition shouldRedirect :: "string \<Rightarrow> bool" where
  "shouldRedirect path =
    (if path \<in> set patterns then False
     else if length path = 0 then False
     else (path @ ''/'') \<in> set patterns \<and> last path \<noteq> CHR ''/'')"

text \<open>
  \<^verbatim>\<open>mux.handler\<close>: a pattern equal to the path is taken first; then the longest pattern
  ending in a slash that is a prefix of the path, here \<^verbatim>\<open>/\<close> alone; else
  \<^verbatim>\<open>NotFoundHandler\<close>.
\<close>

definition mux_handler ::
  "platform \<Rightarrow> os \<Rightarrow> string \<Rightarrow> ResponseWriter \<Rightarrow> Request \<Rightarrow> ResponseWriter \<times> log_call list" where
  "mux_handler pf os path w r =
    (if path = ''/exhibits'' then exhibitsHandler pf os w r
     else if path = ''/artefacts'' then artefactsHandler pf os w r
     else if path = ''/'' then rootHandler w r
     else if prefix ''/'' path then rootHandler w r
     else (NotFound w r, []))"

text \<open>
  \<^verbatim>\<open>mux.Handler\<close>: a \<^verbatim>\<open>CONNECT\<close> request is matched as it is; the path of any other
  request is cleaned first, and a path that is not in canonical form is answered with
  a redirection to the cleaned path.
\<close>

definition mux_Handler ::
  "platform \<Rightarrow> os \<Rightarrow> ResponseWriter \<Rightarrow> Request \<Rightarrow> ResponseWriter \<times> log_call list" where
  "mux_Handler pf os w r =
    (if Method r = ''CONNECT''
     then (if shouldRedirect (Path r)
           then (Redirect pf w r (URL_String pf (Path r @ ''/'') (RawQuery r)), [])
           else mux_handler pf os (Path r) w r)
     else
       (let path = cleanPath (Path r)
        in if shouldRedirect path
           then (Redirect pf w r (URL_String pf (path @ ''/'') (RawQuery r)), [])
           else if path \<noteq> Path r
           then (Redirect pf w r (URL_String pf path (RawQuery r)), [])
           else mux_handler pf os (Path r) w r))"

text \<open>
  \<^verbatim>\<open>ServeMux.ServeHTTP\<close>: the request target \<^verbatim>\<open>*\<close> is refused; every other request
  goes to the handler that \<^verbatim>\<open>mux.Handler\<close> selects.
\<close>

definition ServeMux ::
  "platform \<Rightarrow> os \<Rightarrow> ResponseWriter \<Rightarrow> Request \<Rightarrow> ResponseWriter \<times> log_call list" where
  "ServeMux pf os w r =
    (if Path r = ''*''
     then
       (let w = (if ProtoMajor r > 1 \<or> (ProtoMajor r = 1 \<and> ProtoMinor r \<ge> 1)
                 then Header_Set w ''Connection'' ''close'' else w)
        in (WriteHeader w StatusBadRequest, []))
     else mux_Handler pf os w r)"

text \<open>The response to one request: the handler runs on a fresh writer.\<close>

definition respond :: "platform \<Rightarrow> os \<Rightarrow> Request \<Rightarrow> ResponseWriter" where
  "respond pf os r = finishRequest (fst (ServeMux pf os newResponseWriter r))"

text \<open>
  The server answers requests one after the other; each request meets the operating
  system in the state it has then. A call to \<^verbatim>\<open>log.Fatal\<close> while a request is handled
  ends the process: that request and the ones after it get no response.
\<close>

definition called_Fatal :: "log_call list \<Rightarrow> bool" where
  "called_Fatal logged = list_ex (\<lambda>c. case c of Fatal m \<Rightarrow> True | Printf m \<Rightarrow> False) logged"

fun serve :: "platform \<Rightarrow> (os \<times> Request) list \<Rightarrow> ResponseWriter list" where
  "serve pf [] = []"
| "serve pf ((os, r) # rest) =
    (case ServeMux pf os newResponseWriter r of
       (w, logged) \<Rightarrow> if called_Fatal logged then [] else finishRequest w # serve pf rest)"

section \<open>Properties of the loops\<close>

lemma elems_append_slice [simp]: "elems (append_slice acc x) = elems acc @ [x]"
  by (cases acc) auto

lemma append_slice_eq: "append_slice acc x = Slice (elems acc @ [x])"
  by (cases acc) auto

lemma exhibits_match_loop_eq:
  "exhibits_match_loop e ts acc = (if ID e \<in> set ts then append_slice acc e else acc)"
  by (induction ts) auto

lemma exhibits_filter_loop_eq:
  "exhibits_filter_loop es ts acc =
     (if filter (\<lambda>e. ID e \<in> set ts) es = [] then acc
      else Slice (elems acc @ filter (\<lambda>e. ID e \<in> set ts) es))"
proof (induction es arbitrary: acc)
  case Nil
  show ?case by simp
next
  case (Cons e es)
  show ?case
    by (simp add: Cons.IH exhibits_match_loop_eq append_slice_eq)
qed

lemma set_exhibits_parse_loop_acc:
  "set (elems (exhibits_parse_loop toks acc)) =
     set (elems acc) \<union> {n. \<exists>tok \<in> set toks. Atoi (TrimSpace tok) = Inr n}"
proof (induction toks arbitrary: acc)
  case Nil
  show ?case by simp
next
  case (Cons tok toks)
  show ?case by (cases "Atoi (TrimSpace tok)") (auto simp: Cons.IH)
qed

lemma set_exhibits_parse_loop:
  "set (elems (exhibits_parse_loop toks NilSlice)) =
     {n. \<exists>tok \<in> set toks. Atoi (TrimSpace tok) = Inr n}"
  by (simp add: set_exhibits_parse_loop_acc)

lemma artefacts_match_loop_eq:
  "artefacts_match_loop a ts acc =
     (if ObjectNumber a \<in> set ts then append_slice acc a else acc)"
  by (induction ts) auto

lemma artefacts_filter_loop_eq:
  "artefacts_filter_loop as ts acc =
     (if filter (\<lambda>a. ObjectNumber a \<in> set ts) as = [] then acc
      else Slice (elems acc @ filter (\<lambda>a. ObjectNumber a \<in> set ts) as))"
proof (induction as arbitrary: acc)
  case Nil
  show ?case by simp
next
  case (Cons a as)
  show ?case
    by (simp add: Cons.IH artefacts_match_loop_eq append_slice_eq)
qed

lemma artefacts_parse_loop_elems:
  "elems (artefacts_parse_loop toks acc) = elems acc @ map TrimSpace toks"
  by (induction toks arbitrary: acc) auto

lemma Split_nonempty: "Split s sep \<noteq> []"
  by (subst Split.simps) (simp add: Let_def)

section \<open>The handlers once the data is loaded\<close>

text \<open>
  When the file is found, read and decoded, a handler sets its four headers on the
  fresh writer and hands the selected slice to the encoder.
\<close>

definition json_headers :: "string \<rightharpoonup> string list" where
  "json_headers =
    [''Access-Control-Allow-Origin'' \<mapsto> [''*''],
     ''Access-Control-Allow-Methods'' \<mapsto> [''GET, OPTIONS''],
     ''Access-Control-Allow-Headers'' \<mapsto> [''Content-Type''],
     ''Content-Type'' \<mapsto> [''application/json'']]"

lemma exhibitsHandler_loaded:
  assumes "findFile pf os ''exhibits.json'' = (filePath, None)"
    and "ReadFile os filePath = Inr data"
    and "Unmarshal_exhibits pf data = Inr exhibits"
  shows "fst (exhibitsHandler pf os newResponseWriter r) =
     fst (Encoder_Encode (Marshal_ExhibitDTO pf)
       \<lparr>header = json_headers, wroteHeader = False, status = 0, body = []\<rparr>
       (if Values_Get (Query r) ''ids'' \<noteq> []
        then exhibits_filter_loop (elems exhibits)
               (elems (exhibits_parse_loop
                         (Split (Values_Get (Query r) ''ids'') CHR '','') NilSlice))
               NilSlice
        else exhibits))"
  using assms
  by (simp add: exhibitsHandler_def Let_def newResponseWriter_def Header_Set_def
      json_headers_def split: prod.splits option.splits)

lemma artefactsHandler_loaded:
  assumes "findFile pf os ''qm_data.json'' = (filePath, None)"
    and "ReadFile os filePath = Inr data"
    and "Unmarshal_QMResponse pf data = Inr qmResponse"
  shows "fst (artefactsHandler pf os newResponseWriter r) =
     fst (Encoder_Encode (Marshal_ArtefactDTO pf)
       \<lparr>header = json_headers, wroteHeader = False, status = 0, body = []\<rparr>
       (if Values_Get (Query r) ''objectNumbers'' \<noteq> []
        then artefacts_filter_loop (elems (Results qmResponse))
               (elems (artefacts_parse_loop
                         (Split (Values_Get (Query r) ''objectNumbers'') CHR '','') NilSlice))
               NilSlice
        else Results qmResponse))"
  using assms
  by (simp add: artefactsHandler_def Let_def newResponseWriter_def Header_Set_def
      json_headers_def split: prod.splits option.splits)

lemma Encoder_Encode_fresh_body:
  "body (fst (Encoder_Encode m \<lparr>header = h, wroteHeader = False, status = 0, body = []\<rparr> v)) =
     (case Encode_slice m v of Inr b \<Rightarrow> b | Inl e \<Rightarrow> [])"
  by (simp add: Encoder_Encode_def Write_def WriteHeader_def Let_def split: sum.splits)

lemma Encoder_Encode_fresh_status:
  "status (finishRequest
     (fst (Encoder_Encode m \<lparr>header = h, wroteHeader = False, status = 0, body = []\<rparr> v))) = 200"
  by (simp add: Encoder_Encode_def Write_def WriteHeader_def finishRequest_def Let_def
      split: sum.splits)

lemma Encoder_Encode_fresh_header:
  "header (finishRequest
     (fst (Encoder_Encode m \<lparr>header = h, wroteHeader = False, status = 0, body = []\<rparr> v))) = h"
  by (simp add: Encoder_Encode_def Write_def WriteHeader_def finishRequest_def Let_def
      split: sum.splits)

section \<open>Example data\<close>

text \<open>An exhibit with the given id and English name, all other fields empty.\<close>

definition exhibit_of :: "int \<Rightarrow> string \<Rightarrow> ExhibitDTO" where
  "exhibit_of i n =
    \<lparr>ID = i,
     SiteName = \<lparr>En = [], Ar = []\<rparr>,
     SiteBriefDescription = \<lparr>En = [], Ar = []\<rparr>,
     NameEn = n,
     NameAr = [],
     Name = \<lparr>En = [], Ar = []\<rparr>,
     BriefDescription = \<lparr>En = [], Ar = []\<rparr>,
     GeneratedDescription = \<lparr>En = [], Ar = []\<rparr>,
     ArtistDescription = \<lparr>En = [], Ar = []\<rparr>,
     ArtistName = \<lparr>En = [], Ar = []\<rparr>,
     LocationDescription = \<lparr>En = [], Ar = []\<rparr>,
     Type = [],
     ImageURL = [],
     VideoURL = [],
     RelevantLink = [],
     AudioGuideLink = None,
     LocationURL = [],
     Tags = NilSlice,
     Coords = \<lparr>Latitude = 0, Longitude = 0\<rparr>,
     Ownership = [],
     RecreationLevel = []\<rparr>"

text \<open>An artefact with the given object number and English title.\<close>

definition artefact_of :: "string \<Rightarrow> string \<Rightarrow> ArtefactDTO" where
  "artefact_of n t =
    \<lparr>ObjectNumber = n,
     TitleEN = t,
     TitleAR = [],
     ObjectNameEN = [],
     ObjectNameAR = [],
     ArtistEN = [],
     ArtistAR = [],
     Museum = \<lparr>Slug = [], Label = [], LabelEN = [], LabelAR = []\<rparr>,
     OpeningTimes = NilSlice,
     SummaryEN = [],
     SummaryAR = [],
     ObjectImages = \<lparr>Original = NilSlice, Card = NilSlice\<rparr>,
     RelatedWebpages = NilSlice,
     Object3dEmbed = NilSlice,
     Coords = \<lparr>Latitude = 0, Longitude = 0\<rparr>\<rparr>"

text \<open>
  A dataset of four exhibits, two of them with id 2, and one of three artefacts in an
  envelope.
\<close>

definition example_exhibits :: "ExhibitDTO list" where
  "example_exhibits =
    [exhibit_of 1 ''one'', exhibit_of 2 ''two'', exhibit_of 3 ''three'', exhibit_of 2 ''deux'']"

definition example_artefacts :: "ArtefactDTO list" where
  "example_artefacts =
    [artefact_of ''Q1.1'' ''bowl'', artefact_of '' Q2'' ''lamp'', artefact_of ''Q3,4'' ''coin'']"

definition example_envelope :: "int \<Rightarrow> string \<Rightarrow> QMResponse" where
  "example_envelope c n =
    \<lparr>Count = c, Next = n, Previous = INil, Results = Slice example_artefacts\<rparr>"

text \<open>
  Stand-ins for the library: a decoder that knows two file contents, an encoder that
  writes the name of a record between braces, path functions for simple paths, and
  address functions for addresses that need no escaping.
\<close>

definition example_platform :: platform where
  "example_platform =
    \<lparr>filepath_Dir = (\<lambda>p. rev (tl (dropWhile (\<lambda>c. c \<noteq> CHR ''/'') (rev p)))),
     filepath_Join = (\<lambda>d f. d @ ''/'' @ f),
     Unmarshal_exhibits =
       (\<lambda>d. if d = ''EXHIBITS'' then Inr (Slice example_exhibits)
            else Inl (ErrorString ''unexpected end of JSON input'')),
     Unmarshal_QMResponse =
       (\<lambda>d. if d = ''QM'' then Inr (example_envelope 3 ''page2'')
            else if d = ''QM2'' then Inr (example_envelope 7 [])
            else Inl (ErrorString ''unexpected end of JSON input'')),
     Marshal_ExhibitDTO = (\<lambda>e. Inr (''{'' @ NameEn e @ ''}'')),
     Marshal_ArtefactDTO = (\<lambda>a. Inr (''{'' @ TitleEN a @ ''}'')),
     URL_String = (\<lambda>p q. if q = [] then p else p @ ''?'' @ q),
     Redirect_url = (\<lambda>old u. u),
     hexEscapeNonASCII = (\<lambda>u. u),
     htmlEscape = (\<lambda>u. u)\<rparr>"

text \<open>Both data files lie in the working directory.\<close>

definition example_os :: os where
  "example_os =
    \<lparr>Stat_ok = (\<lambda>p. p = ''exhibits.json'' \<or> p = ''qm_data.json''),
     Executable = Inr ''/app/stub-exhibits-api'',
     Getwd = Inr ''/app'',
     ReadFile =
       (\<lambda>p. if p = ''exhibits.json'' then Inr ''EXHIBITS''
            else if p = ''qm_data.json'' then Inr ''QM''
            else Inl (ErrorString ''no such file or directory''))\<rparr>"

text \<open>No data file exists anywhere.\<close>

definition example_os_missing :: os where
  "example_os_missing =
    \<lparr>Stat_ok = (\<lambda>p. False),
     Executable = Inr ''/app/stub-exhibits-api'',
     Getwd = Inr ''/app'',
     ReadFile = (\<lambda>p. Inl (ErrorString ''no such file or directory''))\<rparr>"

definition example_request :: "string \<Rightarrow> Values \<Rightarrow> Request" where
  "example_request p q =
    \<lparr>Method = ''GET'', Path = p, RemoteAddr = ''10.0.0.7:40000'', Query = q,
     RawQuery = [], ProtoMajor = 1, ProtoMinor = 1\<rparr>"

lemma example_findFile_exhibits:
  "findFile example_platform example_os ''exhibits.json'' = (''exhibits.json'', None)"
  by (simp add: findFile_def example_os_def)

lemma example_findFile_qm:
  "findFile example_platform example_os ''qm_data.json'' = (''qm_data.json'', None)"
  by (simp add: findFile_def example_os_def)

lemma example_ReadFile_exhibits: "ReadFile example_os ''exhibits.json'' = Inr ''EXHIBITS''"
  by (simp add: example_os_def)

lemma example_ReadFile_qm: "ReadFile example_os ''qm_data.json'' = Inr ''QM''"
  by (simp add: example_os_def)

lemma example_Unmarshal_exhibits:
  "Unmarshal_exhibits example_platform ''EXHIBITS'' = Inr (Slice example_exhibits)"
  by (simp add: example_platform_def)

lemma example_Unmarshal_qm:
  "Unmarshal_QMResponse example_platform ''QM'' = Inr (example_envelope 3 ''page2'')"
  by (simp add: example_platform_def)


section \<open>Filtering exhibits\<close>

text \<open>
  C1. When the data is loaded and every comma-separated token of a non-empty \<open>ids\<close>
  value parses, after trimming, as the id of some record of the dataset, the response
  has status 200 and its body is the JSON array of exactly the records whose id is one
  of the parsed ids, in dataset order, each position once. The body depends on the
  parsed ids only as a set: a request whose ids are the same up to order and
  repetition gets the same body.
\<close>

theorem exhibits_filter_exact:
  assumes "findFile pf os ''exhibits.json'' = (filePath, None)"
    and "ReadFile os filePath = Inr data"
    and "Unmarshal_exhibits pf data = Inr exhibits"
    and "Values_Get (Query r) ''ids'' = idsParam"
    and "idsParam \<noteq> []"
    and "\<forall>tok \<in> set (Split idsParam CHR '','').
           \<exists>n. Atoi (TrimSpace tok) = Inr n \<and> n \<in> ID ` set (elems exhibits)"
  shows "status (finishRequest (fst (exhibitsHandler pf os newResponseWriter r))) = 200
    \<and> body (fst (exhibitsHandler pf os newResponseWriter r)) =
        (case Encode_slice (Marshal_ExhibitDTO pf)
                (Slice (filter
                   (\<lambda>e. \<exists>tok \<in> set (Split idsParam CHR '','').
                            Atoi (TrimSpace tok) = Inr (ID e))
                   (elems exhibits))) of
           Inr b \<Rightarrow> b
         | Inl e \<Rightarrow> [])
    \<and> (\<forall>r'. Values_Get (Query r') ''ids'' \<noteq> []
           \<and> {n. \<exists>tok \<in> set (Split (Values_Get (Query r') ''ids'') CHR '','').
                    Atoi (TrimSpace tok) = Inr n}
             = {n. \<exists>tok \<in> set (Split idsParam CHR '','').
                    Atoi (TrimSpace tok) = Inr n}
           \<longrightarrow> body (fst (exhibitsHandler pf os newResponseWriter r')) =
               body (fst (exhibitsHandler pf os newResponseWriter r)))"
proof -
  let ?toks = "Split idsParam CHR '',''"
  let ?ts = "elems (exhibits_parse_loop ?toks NilSlice)"
  let ?sel = "filter (\<lambda>e. ID e \<in> set ?ts) (elems exhibits)"
  have sel_eq: "?sel =
      filter (\<lambda>e. \<exists>tok \<in> set ?toks. Atoi (TrimSpace tok) = Inr (ID e)) (elems exhibits)"
    by (simp add: set_exhibits_parse_loop)
  obtain tok where tok: "tok \<in> set ?toks"
    using Split_nonempty [of idsParam "CHR '',''"] by (cases ?toks) auto
  with assms(6) obtain n where n: "Atoi (TrimSpace tok) = Inr n" "n \<in> ID ` set (elems exhibits)"
    by blast
  then obtain e where e: "e \<in> set (elems exhibits)" "ID e = n" by auto
  with tok n have "e \<in> set ?sel"
    by (auto simp: set_exhibits_parse_loop)
  then have ne: "?sel \<noteq> []" by (metis empty_iff empty_set)
  have handler: "\<And>q. fst (exhibitsHandler pf os newResponseWriter q) =
     fst (Encoder_Encode (Marshal_ExhibitDTO pf)
       \<lparr>header = json_headers, wroteHeader = False, status = 0, body = []\<rparr>
       (if Values_Get (Query q) ''ids'' \<noteq> []
        then exhibits_filter_loop (elems exhibits)
               (elems (exhibits_parse_loop
                         (Split (Values_Get (Query q) ''ids'') CHR '','') NilSlice))
               NilSlice
        else exhibits))"
    by (rule exhibitsHandler_loaded [OF assms(1-3)])
  have filtered: "exhibits_filter_loop (elems exhibits) ?ts NilSlice = Slice ?sel"
    using ne by (simp add: exhibits_filter_loop_eq)
  have st: "status (finishRequest (fst (exhibitsHandler pf os newResponseWriter r))) = 200"
    by (simp only: handler Encoder_Encode_fresh_status)
  have bd: "body (fst (exhibitsHandler pf os newResponseWriter r)) =
        (case Encode_slice (Marshal_ExhibitDTO pf) (Slice ?sel) of Inr b \<Rightarrow> b | Inl e \<Rightarrow> [])"
    using assms(4,5) filtered by (simp add: handler Encoder_Encode_fresh_body)
  have indep: "body (fst (exhibitsHandler pf os newResponseWriter r')) =
               body (fst (exhibitsHandler pf os newResponseWriter r))"
    if r': "Values_Get (Query r') ''ids'' \<noteq> []"
      "{n. \<exists>tok \<in> set (Split (Values_Get (Query r') ''ids'') CHR '','').
              Atoi (TrimSpace tok) = Inr n}
       = {n. \<exists>tok \<in> set ?toks. Atoi (TrimSpace tok) = Inr n}" for r'
  proof -
    have "set (elems (exhibits_parse_loop
              (Split (Values_Get (Query r') ''ids'') CHR '','') NilSlice)) = set ?ts"
      using r'(2) by (simp only: set_exhibits_parse_loop)
    then have "exhibits_filter_loop (elems exhibits)
        (elems (exhibits_parse_loop (Split (Values_Get (Query r') ''ids'') CHR '','') NilSlice))
        NilSlice = Slice ?sel"
      using ne by (simp add: exhibits_filter_loop_eq)
    with r'(1) have "body (fst (exhibitsHandler pf os newResponseWriter r')) =
        (case Encode_slice (Marshal_ExhibitDTO pf) (Slice ?sel) of Inr b \<Rightarrow> b | Inl e \<Rightarrow> [])"
      by (simp add: handler Encoder_Encode_fresh_body)
    with bd show ?thesis by (simp only:)
  qed
  from st bd indep show ?thesis
    unfolding sel_eq by blast
qed

lemma example_Split_ids: "Split ''3, 1,3'' CHR '','' = [''3'', '' 1'', ''3'']"
  by code_simp

lemma example_TrimSpace_3: "TrimSpace ''3'' = ''3''"
  by code_simp

lemma example_TrimSpace_1: "TrimSpace '' 1'' = ''1''"
  by code_simp

lemma example_Atoi_3: "Atoi ''3'' = Inr 3"
  by code_simp

lemma example_Atoi_1: "Atoi ''1'' = Inr 1"
  by code_simp

theorem exhibits_filter_exact_witness:
  "findFile example_platform example_os ''exhibits.json'' = (''exhibits.json'', None)
   \<and> ReadFile example_os ''exhibits.json'' = Inr ''EXHIBITS''
   \<and> Unmarshal_exhibits example_platform ''EXHIBITS'' = Inr (Slice example_exhibits)
   \<and> Values_Get (Query (example_request ''/exhibits'' [''ids'' \<mapsto> [''3, 1,3'']])) ''ids''
       = ''3, 1,3''
   \<and> Split ''3, 1,3'' CHR '','' = [''3'', '' 1'', ''3'']
   \<and> Atoi (TrimSpace ''3'') = Inr 3 \<and> Atoi (TrimSpace '' 1'') = Inr 1
   \<and> 3 \<in> ID ` set example_exhibits \<and> 1 \<in> ID ` set example_exhibits
   \<and> status (finishRequest (fst (exhibitsHandler example_platform example_os newResponseWriter
         (example_request ''/exhibits'' [''ids'' \<mapsto> [''3, 1,3'']])))) = 200
   \<and> body (fst (exhibitsHandler example_platform example_os newResponseWriter
         (example_request ''/exhibits'' [''ids'' \<mapsto> [''3, 1,3'']])))
       = ''[{one},{three}]'' @ [CHR 0x0A]"
proof -
  let ?r = "example_request ''/exhibits'' [''ids'' \<mapsto> [''3, 1,3'']]"
  have get: "Values_Get (Query ?r) ''ids'' = ''3, 1,3''"
    by (simp add: Values_Get_def example_request_def)
  have a3: "Atoi (TrimSpace ''3'') = Inr 3"
    by (simp only: example_TrimSpace_3 example_Atoi_3)
  have a1: "Atoi (TrimSpace '' 1'') = Inr 1"
    by (simp only: example_TrimSpace_1 example_Atoi_1)
  have m3: "3 \<in> ID ` set example_exhibits" and m1: "1 \<in> ID ` set example_exhibits"
    by (simp_all add: example_exhibits_def exhibit_of_def)
  have present: "\<forall>tok \<in> set (Split ''3, 1,3'' CHR '','').
      \<exists>n. Atoi (TrimSpace tok) = Inr n \<and> n \<in> ID ` set (elems (Slice example_exhibits))"
    using a3 a1 m3 m1 by (simp add: example_Split_ids)
  have sel: "filter (\<lambda>e. \<exists>tok \<in> set (Split ''3, 1,3'' CHR '','').
         Atoi (TrimSpace tok) = Inr (ID e)) example_exhibits =
       [exhibit_of 1 ''one'', exhibit_of 3 ''three'']"
    by (simp add: example_Split_ids a3 a1 example_exhibits_def exhibit_of_def)
  have enc: "Encode_slice (Marshal_ExhibitDTO example_platform)
       (Slice [exhibit_of 1 ''one'', exhibit_of 3 ''three'']) =
       Inr (''[{one},{three}]'' @ [CHR 0x0A])"
    by (simp add: Encode_slice_def example_platform_def exhibit_of_def)
  from exhibits_filter_exact [OF example_findFile_exhibits example_ReadFile_exhibits
      example_Unmarshal_exhibits get _ present]
  have "status (finishRequest (fst (exhibitsHandler example_platform example_os
            newResponseWriter ?r))) = 200"
    and "body (fst (exhibitsHandler example_platform example_os newResponseWriter ?r)) =
       ''[{one},{three}]'' @ [CHR 0x0A]"
    by (simp_all add: sel enc)
  with example_findFile_exhibits example_ReadFile_exhibits example_Unmarshal_exhibits
    get example_Split_ids a3 a1 m3 m1
  show ?thesis by (simp only: simp_thms)
qed

text \<open>
  C2. When the data is loaded and the \<open>ids\<close> parameter is absent or its value is the
  empty string, the response has status 200 and its body is the encoding of the decoded
  dataset itself: every record, unchanged, in the order of the file.
\<close>

theorem exhibits_unfiltered_all:
  assumes "findFile pf os ''exhibits.json'' = (filePath, None)"
    and "ReadFile os filePath = Inr data"
    and "Unmarshal_exhibits pf data = Inr exhibits"
    and "Query r ''ids'' = None \<or> (\<exists>vs. Query r ''ids'' = Some ([] # vs))"
  shows "status (finishRequest (fst (exhibitsHandler pf os newResponseWriter r))) = 200
    \<and> body (fst (exhibitsHandler pf os newResponseWriter r)) =
        (case Encode_slice (Marshal_ExhibitDTO pf) exhibits of Inr b \<Rightarrow> b | Inl e \<Rightarrow> [])"
proof -
  from assms(4) have "Values_Get (Query r) ''ids'' = []"
    by (auto simp: Values_Get_def)
  then show ?thesis
    by (simp add: exhibitsHandler_loaded [OF assms(1-3)] Encoder_Encode_fresh_body
        Encoder_Encode_fresh_status)
qed

theorem exhibits_unfiltered_all_witness:
  "findFile example_platform example_os ''exhibits.json'' = (''exhibits.json'', None)
   \<and> ReadFile example_os ''exhibits.json'' = Inr ''EXHIBITS''
   \<and> Unmarshal_exhibits example_platform ''EXHIBITS'' = Inr (Slice example_exhibits)
   \<and> Query (example_request ''/exhibits'' Map.empty) ''ids'' = None
   \<and> status (finishRequest (fst (exhibitsHandler example_platform example_os newResponseWriter
         (example_request ''/exhibits'' Map.empty)))) = 200
   \<and> body (fst (exhibitsHandler example_platform example_os newResponseWriter
         (example_request ''/exhibits'' Map.empty)))
       = ''[{one},{two},{three},{deux}]'' @ [CHR 0x0A]
   \<and> Query (example_request ''/exhibits'' [''ids'' \<mapsto> [[]]]) ''ids'' = Some [[]]
   \<and> body (fst (exhibitsHandler example_platform example_os newResponseWriter
         (example_request ''/exhibits'' [''ids'' \<mapsto> [[]]])))
       = ''[{one},{two},{three},{deux}]'' @ [CHR 0x0A]"
proof -
  let ?r = "example_request ''/exhibits'' Map.empty"
  let ?r' = "example_request ''/exhibits'' [''ids'' \<mapsto> [[]]]"
  have q: "Query ?r ''ids'' = None" and q': "Query ?r' ''ids'' = Some [[]]"
    by (simp_all add: example_request_def)
  have enc: "Encode_slice (Marshal_ExhibitDTO example_platform) (Slice example_exhibits) =
       Inr (''[{one},{two},{three},{deux}]'' @ [CHR 0x0A])"
    by (simp add: Encode_slice_def example_platform_def example_exhibits_def exhibit_of_def)
  from q have h: "Query ?r ''ids'' = None \<or> (\<exists>vs. Query ?r ''ids'' = Some ([] # vs))"
    by simp
  from q' have h': "Query ?r' ''ids'' = None \<or> (\<exists>vs. Query ?r' ''ids'' = Some ([] # vs))"
    by simp
  from exhibits_unfiltered_all [OF example_findFile_exhibits example_ReadFile_exhibits
      example_Unmarshal_exhibits h]
  have "status (finishRequest (fst (exhibitsHandler example_platform example_os
            newResponseWriter ?r))) = 200"
    and "body (fst (exhibitsHandler example_platform example_os newResponseWriter ?r)) =
       ''[{one},{two},{three},{deux}]'' @ [CHR 0x0A]"
    by (simp_all add: enc)
  moreover
  from exhibits_unfiltered_all [OF example_findFile_exhibits example_ReadFile_exhibits
      example_Unmarshal_exhibits h']
  have "body (fst (exhibitsHandler example_platform example_os newResponseWriter ?r')) =
       ''[{one},{two},{three},{deux}]'' @ [CHR 0x0A]"
    by (simp add: enc)
  ultimately show ?thesis
    using example_findFile_exhibits example_ReadFile_exhibits example_Unmarshal_exhibits q q'
    by (simp only: simp_thms)
qed

text \<open>
  C8. The filter does not deduplicate by id. When the data is loaded, the dataset holds
  records with id \<open>i\<close> at two positions \<open>j < k\<close>, and some token of the non-empty
  \<open>ids\<close> value parses as \<open>i\<close>, the encoded list \<open>sel\<close> keeps the dataset order, holds
  both records, and holds the records of id \<open>i\<close> exactly as the dataset does.
\<close>

theorem exhibits_duplicate_ids_all_returned:
  assumes "findFile pf os ''exhibits.json'' = (filePath, None)"
    and "ReadFile os filePath = Inr data"
    and "Unmarshal_exhibits pf data = Inr exhibits"
    and "Values_Get (Query r) ''ids'' = idsParam"
    and "idsParam \<noteq> []"
    and "tok \<in> set (Split idsParam CHR '','')"
    and "Atoi (TrimSpace tok) = Inr i"
    and "j < k" and "k < length (elems exhibits)"
    and "ID (elems exhibits ! j) = i" and "ID (elems exhibits ! k) = i"
  shows "let sel = filter (\<lambda>e. \<exists>tok \<in> set (Split idsParam CHR '','').
                                  Atoi (TrimSpace tok) = Inr (ID e)) (elems exhibits)
    in body (fst (exhibitsHandler pf os newResponseWriter r)) =
        (case Encode_slice (Marshal_ExhibitDTO pf) (Slice sel) of Inr b \<Rightarrow> b | Inl e \<Rightarrow> [])
      \<and> subseq sel (elems exhibits)
      \<and> filter (\<lambda>e. ID e = i) sel = filter (\<lambda>e. ID e = i) (elems exhibits)
      \<and> elems exhibits ! j \<in> set sel \<and> elems exhibits ! k \<in> set sel
      \<and> 2 \<le> length (filter (\<lambda>e. ID e = i) sel)"
proof -
  let ?ts = "elems (exhibits_parse_loop (Split idsParam CHR '','') NilSlice)"
  let ?sel = "filter (\<lambda>e. ID e \<in> set ?ts) (elems exhibits)"
  from assms(6,7) have i: "i \<in> set ?ts"
    by (auto simp: set_exhibits_parse_loop)
  from assms(8,9) have j: "j < length (elems exhibits)" by simp
  from i j assms(10) have inj: "elems exhibits ! j \<in> set ?sel" by simp
  from i assms(9,11) have ink: "elems exhibits ! k \<in> set ?sel" by simp
  from inj have ne: "?sel \<noteq> []" by (metis empty_iff empty_set)
  have bd: "body (fst (exhibitsHandler pf os newResponseWriter r)) =
        (case Encode_slice (Marshal_ExhibitDTO pf) (Slice ?sel) of Inr b \<Rightarrow> b | Inl e \<Rightarrow> [])"
    using assms(4,5) ne
    by (simp add: exhibitsHandler_loaded [OF assms(1-3)] Encoder_Encode_fresh_body
        exhibits_filter_loop_eq)
  have same: "filter (\<lambda>e. ID e = i) ?sel = filter (\<lambda>e. ID e = i) (elems exhibits)"
    using i by (auto intro: filter_cong)
  have "{j, k} \<subseteq> {n. n < length (elems exhibits) \<and> ID (elems exhibits ! n) = i}"
    using j assms(9-11) by simp
  then have "card {j, k} \<le> card {n. n < length (elems exhibits) \<and> ID (elems exhibits ! n) = i}"
    by (intro card_mono) simp_all
  moreover from assms(8) have "card {j, k} = 2" by simp
  ultimately have "length (filter (\<lambda>e. ID e = i) (elems exhibits)) \<ge> 2"
    by (simp add: length_filter_conv_card)
  with same have two: "2 \<le> length (filter (\<lambda>e. ID e = i) ?sel)" by simp
  have sel_eq: "?sel =
      filter (\<lambda>e. \<exists>tok \<in> set (Split idsParam CHR '','').
                 Atoi (TrimSpace tok) = Inr (ID e)) (elems exhibits)"
    by (simp add: set_exhibits_parse_loop)
  have "subseq ?sel (elems exhibits)" by simp
  with bd same inj ink two show ?thesis
    unfolding sel_eq Let_def by blast
qed


lemma example_Split_2: "Split ''2'' CHR '','' = [''2'']"
  by code_simp

lemma example_Atoi_TrimSpace_2: "Atoi (TrimSpace ''2'') = Inr 2"
  by code_simp

theorem exhibits_duplicate_ids_all_returned_witness:
  "findFile example_platform example_os ''exhibits.json'' = (''exhibits.json'', None)
   \<and> ReadFile example_os ''exhibits.json'' = Inr ''EXHIBITS''
   \<and> Unmarshal_exhibits example_platform ''EXHIBITS'' = Inr (Slice example_exhibits)
   \<and> Values_Get (Query (example_request ''/exhibits'' [''ids'' \<mapsto> [''2'']])) ''ids'' = ''2''
   \<and> ''2'' \<in> set (Split ''2'' CHR '','') \<and> Atoi (TrimSpace ''2'') = Inr 2
   \<and> (1::nat) < 3 \<and> 3 < length example_exhibits
   \<and> ID (example_exhibits ! 1) = 2 \<and> ID (example_exhibits ! 3) = 2
   \<and> body (fst (exhibitsHandler example_platform example_os newResponseWriter
         (example_request ''/exhibits'' [''ids'' \<mapsto> [''2'']])))
       = ''[{two},{deux}]'' @ [CHR 0x0A]
   \<and> example_exhibits ! 1 = exhibit_of 2 ''two''
   \<and> example_exhibits ! 3 = exhibit_of 2 ''deux''"
proof -
  let ?r = "example_request ''/exhibits'' [''ids'' \<mapsto> [''2'']]"
  have get: "Values_Get (Query ?r) ''ids'' = ''2''"
    by (simp add: Values_Get_def example_request_def)
  have tok: "''2'' \<in> set (Split ''2'' CHR '','')"
    by (simp add: example_Split_2)
  have len: "3 < length (elems (Slice example_exhibits))"
    by (simp add: example_exhibits_def)
  have id1: "ID (elems (Slice example_exhibits) ! 1) = 2"
    and id3: "ID (elems (Slice example_exhibits) ! 3) = 2"
    by (simp_all add: example_exhibits_def exhibit_of_def)
  have sel: "filter (\<lambda>e. \<exists>tok \<in> set (Split ''2'' CHR '','').
         Atoi (TrimSpace tok) = Inr (ID e)) example_exhibits =
       [exhibit_of 2 ''two'', exhibit_of 2 ''deux'']"
    by (simp add: example_Split_2 example_Atoi_TrimSpace_2 example_exhibits_def exhibit_of_def)
  have enc: "Encode_slice (Marshal_ExhibitDTO example_platform)
       (Slice [exhibit_of 2 ''two'', exhibit_of 2 ''deux'']) =
       Inr (''[{two},{deux}]'' @ [CHR 0x0A])"
    by (simp add: Encode_slice_def example_platform_def exhibit_of_def)
  have lt: "(1::nat) < 3" by simp
  from exhibits_duplicate_ids_all_returned [OF example_findFile_exhibits
      example_ReadFile_exhibits example_Unmarshal_exhibits get _ tok
      example_Atoi_TrimSpace_2 lt len id1 id3]
  have "body (fst (exhibitsHandler example_platform example_os newResponseWriter ?r)) =
       ''[{two},{deux}]'' @ [CHR 0x0A]"
    by (simp add: Let_def sel enc)
  moreover have "example_exhibits ! 1 = exhibit_of 2 ''two''"
    and "example_exhibits ! 3 = exhibit_of 2 ''deux''"
    by (simp_all add: example_exhibits_def)
  ultimately show ?thesis
    using example_findFile_exhibits example_ReadFile_exhibits example_Unmarshal_exhibits
      get tok example_Atoi_TrimSpace_2 lt len id1 id3
    by (simp only: simp_thms elems.simps)
qed

section \<open>A filter that selects nothing\<close>

text \<open>
  C3. When the data is loaded and the filter parameter is present and non-empty but no
  record matches, the filtered slice is still the nil slice it was declared as, and the
  encoder writes \<^verbatim>\<open>null\<close>: the response has status 200 and the body \<^verbatim>\<open>null\<close> followed by
  a newline, not the empty JSON list \<^verbatim>\<open>[]\<close>.
\<close>

theorem no_match_body_is_null:
  "(findFile pf os ''exhibits.json'' = (filePath, None)
      \<and> ReadFile os filePath = Inr data
      \<and> Unmarshal_exhibits pf data = Inr exhibits
      \<and> Values_Get (Query r) ''ids'' \<noteq> []
      \<and> (\<forall>e \<in> set (elems exhibits).
            \<forall>tok \<in> set (Split (Values_Get (Query r) ''ids'') CHR '','').
              Atoi (TrimSpace tok) \<noteq> Inr (ID e))
    \<longrightarrow> status (finishRequest (fst (exhibitsHandler pf os newResponseWriter r))) = 200
        \<and> body (fst (exhibitsHandler pf os newResponseWriter r)) = ''null'' @ [CHR 0x0A])
   \<and> (findFile pf os ''qm_data.json'' = (filePath', None)
      \<and> ReadFile os filePath' = Inr data'
      \<and> Unmarshal_QMResponse pf data' = Inr qmResponse
      \<and> Values_Get (Query r) ''objectNumbers'' \<noteq> []
      \<and> (\<forall>a \<in> set (elems (Results qmResponse)).
            \<forall>tok \<in> set (Split (Values_Get (Query r) ''objectNumbers'') CHR '','').
              ObjectNumber a \<noteq> TrimSpace tok)
    \<longrightarrow> status (finishRequest (fst (artefactsHandler pf os newResponseWriter r))) = 200
        \<and> body (fst (artefactsHandler pf os newResponseWriter r)) = ''null'' @ [CHR 0x0A])"
proof (intro conjI impI)
  assume a: "findFile pf os ''exhibits.json'' = (filePath, None)
      \<and> ReadFile os filePath = Inr data
      \<and> Unmarshal_exhibits pf data = Inr exhibits
      \<and> Values_Get (Query r) ''ids'' \<noteq> []
      \<and> (\<forall>e \<in> set (elems exhibits).
            \<forall>tok \<in> set (Split (Values_Get (Query r) ''ids'') CHR '','').
              Atoi (TrimSpace tok) \<noteq> Inr (ID e))"
  then have loaded: "findFile pf os ''exhibits.json'' = (filePath, None)"
    "ReadFile os filePath = Inr data" "Unmarshal_exhibits pf data = Inr exhibits"
    by simp_all
  from a have "filter (\<lambda>e. ID e \<in> set (elems (exhibits_parse_loop
        (Split (Values_Get (Query r) ''ids'') CHR '','') NilSlice))) (elems exhibits) = []"
    by (auto simp: set_exhibits_parse_loop filter_empty_conv)
  with a have sel: "(if Values_Get (Query r) ''ids'' \<noteq> []
        then exhibits_filter_loop (elems exhibits)
               (elems (exhibits_parse_loop
                         (Split (Values_Get (Query r) ''ids'') CHR '','') NilSlice))
               NilSlice
        else exhibits) = NilSlice"
    by (simp add: exhibits_filter_loop_eq)
  show "status (finishRequest (fst (exhibitsHandler pf os newResponseWriter r))) = 200"
    by (simp only: exhibitsHandler_loaded [OF loaded] Encoder_Encode_fresh_status)
  show "body (fst (exhibitsHandler pf os newResponseWriter r)) = ''null'' @ [CHR 0x0A]"
    by (simp only: exhibitsHandler_loaded [OF loaded] sel Encoder_Encode_fresh_body)
      (simp add: Encode_slice_def)
next
  assume a: "findFile pf os ''qm_data.json'' = (filePath', None)
      \<and> ReadFile os filePath' = Inr data'
      \<and> Unmarshal_QMResponse pf data' = Inr qmResponse
      \<and> Values_Get (Query r) ''objectNumbers'' \<noteq> []
      \<and> (\<forall>a \<in> set (elems (Results qmResponse)).
            \<forall>tok \<in> set (Split (Values_Get (Query r) ''objectNumbers'') CHR '','').
              ObjectNumber a \<noteq> TrimSpace tok)"
  then have loaded: "findFile pf os ''qm_data.json'' = (filePath', None)"
    "ReadFile os filePath' = Inr data'" "Unmarshal_QMResponse pf data' = Inr qmResponse"
    by simp_all
  from a have "filter (\<lambda>a. ObjectNumber a \<in> set (elems (artefacts_parse_loop
        (Split (Values_Get (Query r) ''objectNumbers'') CHR '','') NilSlice)))
        (elems (Results qmResponse)) = []"
    by (auto simp: artefacts_parse_loop_elems filter_empty_conv)
  with a have sel: "(if Values_Get (Query r) ''objectNumbers'' \<noteq> []
        then artefacts_filter_loop (elems (Results qmResponse))
               (elems (artefacts_parse_loop
                         (Split (Values_Get (Query r) ''objectNumbers'') CHR '','') NilSlice))
               NilSlice
        else Results qmResponse) = NilSlice"
    by (simp add: artefacts_filter_loop_eq)
  show "status (finishRequest (fst (artefactsHandler pf os newResponseWriter r))) = 200"
    by (simp only: artefactsHandler_loaded [OF loaded] Encoder_Encode_fresh_status)
  show "body (fst (artefactsHandler pf os newResponseWriter r)) = ''null'' @ [CHR 0x0A]"
    by (simp only: artefactsHandler_loaded [OF loaded] sel Encoder_Encode_fresh_body)
      (simp add: Encode_slice_def)
qed

lemma example_Split_abc_def: "Split ''abc,def'' CHR '','' = [''abc'', ''def'']"
  by code_simp

lemma example_Atoi_abc: "Atoi (TrimSpace ''abc'') = Inl ErrSyntax"
  by code_simp

lemma example_Atoi_def: "Atoi (TrimSpace ''def'') = Inl ErrSyntax"
  by code_simp

lemma example_Split_NONEXISTENT: "Split ''NONEXISTENT'' CHR '','' = [''NONEXISTENT'']"
  by code_simp

lemma example_TrimSpace_NONEXISTENT: "TrimSpace ''NONEXISTENT'' = ''NONEXISTENT''"
  by code_simp

theorem no_match_body_is_null_witness:
  "Values_Get (Query (example_request ''/exhibits''
       [''ids'' \<mapsto> [''abc,def''], ''objectNumbers'' \<mapsto> [''NONEXISTENT'']])) ''ids'' = ''abc,def''
   \<and> Values_Get (Query (example_request ''/exhibits''
       [''ids'' \<mapsto> [''abc,def''], ''objectNumbers'' \<mapsto> [''NONEXISTENT'']])) ''objectNumbers''
       = ''NONEXISTENT''
   \<and> status (finishRequest (fst (exhibitsHandler example_platform example_os newResponseWriter
        (example_request ''/exhibits''
           [''ids'' \<mapsto> [''abc,def''], ''objectNumbers'' \<mapsto> [''NONEXISTENT'']])))) = 200
   \<and> body (fst (exhibitsHandler example_platform example_os newResponseWriter
        (example_request ''/exhibits''
           [''ids'' \<mapsto> [''abc,def''], ''objectNumbers'' \<mapsto> [''NONEXISTENT'']])))
       = ''null'' @ [CHR 0x0A]
   \<and> status (finishRequest (fst (artefactsHandler example_platform example_os newResponseWriter
        (example_request ''/exhibits''
           [''ids'' \<mapsto> [''abc,def''], ''objectNumbers'' \<mapsto> [''NONEXISTENT'']])))) = 200
   \<and> body (fst (artefactsHandler example_platform example_os newResponseWriter
        (example_request ''/exhibits''
           [''ids'' \<mapsto> [''abc,def''], ''objectNumbers'' \<mapsto> [''NONEXISTENT'']])))
       = ''null'' @ [CHR 0x0A]
   \<and> ''null'' @ [CHR 0x0A] \<noteq> ''[]'' @ [CHR 0x0A]"
proof -
  let ?r = "example_request ''/exhibits''
       [''ids'' \<mapsto> [''abc,def''], ''objectNumbers'' \<mapsto> [''NONEXISTENT'']]"
  have get: "Values_Get (Query ?r) ''ids'' = ''abc,def''"
    and get': "Values_Get (Query ?r) ''objectNumbers'' = ''NONEXISTENT''"
    by (simp_all add: Values_Get_def example_request_def)
  have none: "\<forall>e \<in> set (elems (Slice example_exhibits)).
      \<forall>tok \<in> set (Split (Values_Get (Query ?r) ''ids'') CHR '','').
        Atoi (TrimSpace tok) \<noteq> Inr (ID e)"
    by (simp add: get example_Split_abc_def example_Atoi_abc example_Atoi_def)
  have none': "\<forall>a \<in> set (elems (Results (example_envelope 3 ''page2''))).
      \<forall>tok \<in> set (Split (Values_Get (Query ?r) ''objectNumbers'') CHR '','').
        ObjectNumber a \<noteq> TrimSpace tok"
    by (simp add: get' example_Split_NONEXISTENT example_TrimSpace_NONEXISTENT
        example_envelope_def example_artefacts_def artefact_of_def)
  have ne: "Values_Get (Query ?r) ''ids'' \<noteq> []"
    and ne': "Values_Get (Query ?r) ''objectNumbers'' \<noteq> []"
    by (simp_all add: get get')
  note inst = no_match_body_is_null [of example_platform example_os "''exhibits.json''"
      "''EXHIBITS''" "Slice example_exhibits" ?r "''qm_data.json''" "''QM''"
      "example_envelope 3 ''page2''"]
  from inst example_findFile_exhibits example_ReadFile_exhibits example_Unmarshal_exhibits
    ne none
  have "status (finishRequest (fst (exhibitsHandler example_platform example_os
            newResponseWriter ?r))) = 200"
    and "body (fst (exhibitsHandler example_platform example_os newResponseWriter ?r))
       = ''null'' @ [CHR 0x0A]"
    by blast+
  moreover
  from inst example_findFile_qm example_ReadFile_qm example_Unmarshal_qm ne' none'
  have "status (finishRequest (fst (artefactsHandler example_platform example_os
            newResponseWriter ?r))) = 200"
    and "body (fst (artefactsHandler example_platform example_os newResponseWriter ?r))
       = ''null'' @ [CHR 0x0A]"
    by blast+
  moreover have "''null'' @ [CHR 0x0A] \<noteq> ''[]'' @ [CHR 0x0A]" by simp
  ultimately show ?thesis
    using get get' by (simp only: simp_thms)
qed

section \<open>Locating a file\<close>

text \<open>
  The candidate paths in the words of the specification: the file name itself, the
  file name in the directory of the executable, the file name in the working directory.
  A candidate whose directory cannot be determined does not exist.
\<close>

definition findFile_candidates :: "platform \<Rightarrow> os \<Rightarrow> string \<Rightarrow> string list" where
  "findFile_candidates pf os filename =
    [filename]
    @ (case Executable os of
         Inr execPath \<Rightarrow> [filepath_Join pf (filepath_Dir pf execPath) filename]
       | Inl err \<Rightarrow> [])
    @ (case Getwd os of
         Inr wd \<Rightarrow> [filepath_Join pf wd filename]
       | Inl err \<Rightarrow> [])"

text \<open>
  C6. \<open>findFile\<close> returns the first candidate that exists, with no error, and the
  original file name with \<^verbatim>\<open>os.ErrNotExist\<close> when none exists. When the executable and
  the working directory are known, the candidates are the three paths of the claim, in
  its order.
\<close>

theorem findFile_first_existing_candidate:
  "findFile pf os filename =
     (case find (Stat_ok os) (findFile_candidates pf os filename) of
        Some path \<Rightarrow> (path, None)
      | None \<Rightarrow> (filename, Some ErrNotExist))
   \<and> (Executable os = Inr execPath \<and> Getwd os = Inr wd \<longrightarrow>
        findFile pf os filename =
          (case find (Stat_ok os)
                  [filename,
                   filepath_Join pf (filepath_Dir pf execPath) filename,
                   filepath_Join pf wd filename] of
             Some path \<Rightarrow> (path, None)
           | None \<Rightarrow> (filename, Some ErrNotExist)))"
  by (cases "Executable os"; cases "Getwd os")
    (simp_all add: findFile_def findFile_candidates_def Let_def)

text \<open>The data file lies beside the executable only; or nowhere.\<close>

definition example_os_beside_executable :: os where
  "example_os_beside_executable =
    \<lparr>Stat_ok = (\<lambda>p. p = ''/app/exhibits.json''),
     Executable = Inr ''/app/stub-exhibits-api'',
     Getwd = Inr ''/srv'',
     ReadFile = (\<lambda>p. if p = ''/app/exhibits.json'' then Inr ''EXHIBITS''
                      else Inl (ErrorString ''no such file or directory''))\<rparr>"

theorem findFile_first_existing_candidate_witness:
  "Executable example_os_beside_executable = Inr ''/app/stub-exhibits-api''
   \<and> Getwd example_os_beside_executable = Inr ''/srv''
   \<and> filepath_Join example_platform
        (filepath_Dir example_platform ''/app/stub-exhibits-api'') ''exhibits.json''
       = ''/app/exhibits.json''
   \<and> findFile example_platform example_os_beside_executable ''exhibits.json''
       = (''/app/exhibits.json'', None)
   \<and> Executable example_os_missing = Inr ''/app/stub-exhibits-api''
   \<and> Getwd example_os_missing = Inr ''/app''
   \<and> findFile example_platform example_os_missing ''exhibits.json''
       = (''exhibits.json'', Some ErrNotExist)"
proof -
  have e: "Executable example_os_beside_executable = Inr ''/app/stub-exhibits-api''"
    and g: "Getwd example_os_beside_executable = Inr ''/srv''"
    by (simp_all add: example_os_beside_executable_def)
  have e': "Executable example_os_missing = Inr ''/app/stub-exhibits-api''"
    and g': "Getwd example_os_missing = Inr ''/app''"
    by (simp_all add: example_os_missing_def)
  have j: "filepath_Join example_platform
        (filepath_Dir example_platform ''/app/stub-exhibits-api'') ''exhibits.json''
       = ''/app/exhibits.json''"
    by (simp add: example_platform_def)
  have c: "(case find (Stat_ok example_os_beside_executable)
                  [''exhibits.json'',
                   filepath_Join example_platform
                     (filepath_Dir example_platform ''/app/stub-exhibits-api'') ''exhibits.json'',
                   filepath_Join example_platform ''/srv'' ''exhibits.json''] of
             Some path \<Rightarrow> (path, None)
           | None \<Rightarrow> (''exhibits.json'', Some ErrNotExist)) = (''/app/exhibits.json'', None)"
    by (simp add: example_os_beside_executable_def example_platform_def)
  have c': "(case find (Stat_ok example_os_missing)
                  [''exhibits.json'',
                   filepath_Join example_platform
                     (filepath_Dir example_platform ''/app/stub-exhibits-api'') ''exhibits.json'',
                   filepath_Join example_platform ''/app'' ''exhibits.json''] of
             Some path \<Rightarrow> (path, None)
           | None \<Rightarrow> (''exhibits.json'', Some ErrNotExist))
          = (''exhibits.json'', Some ErrNotExist)"
    by (simp add: example_os_missing_def)
  from findFile_first_existing_candidate [of example_platform example_os_beside_executable
      "''exhibits.json''" "''/app/stub-exhibits-api''" "''/srv''"] e g
  have "findFile example_platform example_os_beside_executable ''exhibits.json''
       = (''/app/exhibits.json'', None)"
    unfolding c by blast
  moreover
  from findFile_first_existing_candidate [of example_platform example_os_missing
      "''exhibits.json''" "''/app/stub-exhibits-api''" "''/app''"] e' g'
  have "findFile example_platform example_os_missing ''exhibits.json''
       = (''exhibits.json'', Some ErrNotExist)"
    unfolding c' by blast
  ultimately show ?thesis using e g e' g' j by (simp only: simp_thms)
qed

section \<open>Failures while loading the data\<close>

text \<open>
  The data of a route is unavailable when the file is not found, cannot be read, or
  does not decode.
\<close>

definition exhibits_unavailable :: "platform \<Rightarrow> os \<Rightarrow> bool" where
  "exhibits_unavailable pf os =
    (case findFile pf os ''exhibits.json'' of
       (filePath, Some err) \<Rightarrow> True
     | (filePath, None) \<Rightarrow>
         (case ReadFile os filePath of
            Inl err \<Rightarrow> True
          | Inr data \<Rightarrow>
              (case Unmarshal_exhibits pf data of Inl err \<Rightarrow> True | Inr v \<Rightarrow> False)))"

definition artefacts_unavailable :: "platform \<Rightarrow> os \<Rightarrow> bool" where
  "artefacts_unavailable pf os =
    (case findFile pf os ''qm_data.json'' of
       (filePath, Some err) \<Rightarrow> True
     | (filePath, None) \<Rightarrow>
         (case ReadFile os filePath of
            Inl err \<Rightarrow> True
          | Inr data \<Rightarrow>
              (case Unmarshal_QMResponse pf data of Inl err \<Rightarrow> True | Inr v \<Rightarrow> False)))"

text \<open>What \<open>http.Error\<close> leaves in a fresh writer.\<close>

lemma http_Error_fresh:
  "http_Error newResponseWriter msg code =
     \<lparr>header = [''Content-Type'' \<mapsto> [''text/plain; charset=utf-8''],
                ''X-Content-Type-Options'' \<mapsto> [''nosniff'']],
      wroteHeader = True, status = code, body = msg @ [CHR 0x0A]\<rparr>"
  by (simp add: http_Error_def newResponseWriter_def Header_Set_def WriteHeader_def Write_def
      Let_def)

lemma exhibitsHandler_unavailable:
  assumes "exhibits_unavailable pf os"
  shows "\<exists>msg line. exhibitsHandler pf os newResponseWriter r =
     (http_Error newResponseWriter msg StatusInternalServerError,
      [Printf (''Received request: '' @ Method r @ '' '' @ Path r @ '' from '' @ RemoteAddr r),
       Printf line])"
  using assms
  by (auto simp: exhibits_unavailable_def exhibitsHandler_def Let_def
      split: prod.splits option.splits sum.splits)

lemma artefactsHandler_unavailable:
  assumes "artefacts_unavailable pf os"
  shows "\<exists>msg line. artefactsHandler pf os newResponseWriter r =
     (http_Error newResponseWriter msg StatusInternalServerError,
      [Printf (''Received request: '' @ Method r @ '' '' @ Path r @ '' from '' @ RemoteAddr r),
       Printf line])"
  using assms
  by (auto simp: artefacts_unavailable_def artefactsHandler_def Let_def
      split: prod.splits option.splits sum.splits)

lemma exhibits_available:
  assumes "\<not> exhibits_unavailable pf os"
  shows "\<exists>filePath data exhibits. findFile pf os ''exhibits.json'' = (filePath, None)
     \<and> ReadFile os filePath = Inr data \<and> Unmarshal_exhibits pf data = Inr exhibits"
  using assms
  by (auto simp: exhibits_unavailable_def split: prod.splits option.splits sum.splits)

lemma artefacts_available:
  assumes "\<not> artefacts_unavailable pf os"
  shows "\<exists>filePath data qmResponse. findFile pf os ''qm_data.json'' = (filePath, None)
     \<and> ReadFile os filePath = Inr data \<and> Unmarshal_QMResponse pf data = Inr qmResponse"
  using assms
  by (auto simp: artefacts_unavailable_def split: prod.splits option.splits sum.splits)

lemma rootHandler_fresh:
  "rootHandler newResponseWriter r =
     (\<lparr>header = [''Content-Type'' \<mapsto> [''text/plain'']], wroteHeader = True, status = 200,
       body = ''Hello, world!''\<rparr>, [])"
  by (simp add: rootHandler_def newResponseWriter_def Header_Set_def WriteHeader_def Write_def
      StatusOK_def Let_def)

subsection \<open>Routing\<close>

text \<open>With the three patterns of \<^verbatim>\<open>main\<close> no path is redirected to a subtree.\<close>

lemma shouldRedirect_False: "\<not> shouldRedirect path"
proof -
  have "path @ ''/'' \<noteq> ''/exhibits''" and "path @ ''/'' \<noteq> ''/artefacts''"
    by (auto dest: arg_cong [where f = last])
  then show ?thesis
    by (auto simp: shouldRedirect_def patterns_def)
qed

lemma cleanPath_exhibits: "cleanPath ''/exhibits'' = ''/exhibits''"
  by code_simp

lemma cleanPath_artefacts: "cleanPath ''/artefacts'' = ''/artefacts''"
  by code_simp

lemma cleanPath_root: "cleanPath ''/'' = ''/''"
  by code_simp

lemma ServeMux_exhibits:
  assumes "Path r = ''/exhibits''"
  shows "ServeMux pf os w r = exhibitsHandler pf os w r"
  using assms
  by (simp add: ServeMux_def mux_Handler_def mux_handler_def shouldRedirect_False
      cleanPath_exhibits)

lemma ServeMux_artefacts:
  assumes "Path r = ''/artefacts''"
  shows "ServeMux pf os w r = artefactsHandler pf os w r"
  using assms
  by (simp add: ServeMux_def mux_Handler_def mux_handler_def shouldRedirect_False
      cleanPath_artefacts)

lemma ServeMux_root:
  assumes "Method r = ''CONNECT'' \<or> cleanPath (Path r) = Path r"
    and "prefix ''/'' (Path r)"
    and "Path r \<noteq> ''/exhibits''" and "Path r \<noteq> ''/artefacts''"
  shows "ServeMux pf os w r = rootHandler w r"
proof -
  from assms(2) have "Path r \<noteq> ''*''" by auto
  with assms show ?thesis
    by (auto simp: ServeMux_def mux_Handler_def mux_handler_def shouldRedirect_False Let_def)
qed

lemma respond_exhibits:
  assumes "Path r = ''/exhibits''"
  shows "respond pf os r = finishRequest (fst (exhibitsHandler pf os newResponseWriter r))"
  using assms by (simp add: respond_def ServeMux_exhibits)

lemma respond_artefacts:
  assumes "Path r = ''/artefacts''"
  shows "respond pf os r = finishRequest (fst (artefactsHandler pf os newResponseWriter r))"
  using assms by (simp add: respond_def ServeMux_artefacts)

text \<open>
  A path that is not in canonical form is answered by the multiplexer, not by a handler:
  \<^verbatim>\<open>//exhibits\<close> and \<^verbatim>\<open>/x/../exhibits\<close> are redirected to \<^verbatim>\<open>/exhibits\<close>.
\<close>

lemma cleanPath_examples:
  "cleanPath ''//exhibits'' = ''/exhibits''"
  "cleanPath ''/x/../exhibits'' = ''/exhibits''"
  "cleanPath ''/exhibits/'' = ''/exhibits/''"
  "cleanPath ''/a/./b//c/'' = ''/a/b/c/''"
  "cleanPath ''/..'' = ''/''"
  "cleanPath ''exhibits'' = ''/exhibits''"
  by code_simp+

lemma example_noncanonical_redirected:
  assumes "Path r = ''//exhibits'' \<or> Path r = ''/x/../exhibits''"
    and "Method r \<noteq> ''CONNECT''"
  shows "status (respond pf os r) = 301"
    and "header (respond pf os r) ''Location'' =
      Some [hexEscapeNonASCII pf (Redirect_url pf (Path r) (URL_String pf ''/exhibits'' (RawQuery r)))]"
  using assms
  by (auto simp: respond_def ServeMux_def mux_Handler_def shouldRedirect_False cleanPath_examples
      Redirect_def Let_def newResponseWriter_def Header_Set_def WriteHeader_def Write_def
      finishRequest_def StatusMovedPermanently_def)

subsection \<open>No request ends the process\<close>

text \<open>
  On each of their paths the handlers log with \<^verbatim>\<open>log.Printf\<close> and return; the
  responses the multiplexer writes itself are not logged.
\<close>

lemma called_Fatal_Nil [simp]: "\<not> called_Fatal []"
  by (simp add: called_Fatal_def)

lemma called_Fatal_Printf [simp]: "called_Fatal (Printf m # cs) = called_Fatal cs"
  by (simp add: called_Fatal_def)

lemma called_Fatal_append [simp]:
  "called_Fatal (cs @ ds) = (called_Fatal cs \<or> called_Fatal ds)"
  by (simp add: called_Fatal_def list_ex_iff) blast

lemma rootHandler_no_Fatal: "\<not> called_Fatal (snd (rootHandler w r))"
  by (simp add: rootHandler_def Let_def)

lemma exhibitsHandler_no_Fatal: "\<not> called_Fatal (snd (exhibitsHandler pf os w r))"
  by (simp add: exhibitsHandler_def Let_def split: prod.splits option.splits sum.splits)

lemma artefactsHandler_no_Fatal: "\<not> called_Fatal (snd (artefactsHandler pf os w r))"
  by (simp add: artefactsHandler_def Let_def split: prod.splits option.splits sum.splits)

lemma mux_handler_no_Fatal: "\<not> called_Fatal (snd (mux_handler pf os path w r))"
  by (simp add: mux_handler_def rootHandler_no_Fatal exhibitsHandler_no_Fatal
      artefactsHandler_no_Fatal)

lemma ServeMux_no_Fatal: "\<not> called_Fatal (snd (ServeMux pf os w r))"
  by (simp add: ServeMux_def mux_Handler_def mux_handler_no_Fatal Let_def)

lemma serve_all:
  "serve pf reqs = map (\<lambda>(os, r). respond pf os r) reqs"
proof (induction reqs)
  case Nil
  show ?case by simp
next
  case (Cons q reqs)
  obtain os r where q: "q = (os, r)" by (cases q)
  obtain w logged where s: "ServeMux pf os newResponseWriter r = (w, logged)"
    by (cases "ServeMux pf os newResponseWriter r")
  from ServeMux_no_Fatal [of pf os newResponseWriter r] s have "\<not> called_Fatal logged"
    by simp
  with s Cons.IH show ?case
    by (simp add: q respond_def)
qed

text \<open>
  C4. When the data of a route is unavailable, its handler answers 500 with a non-empty
  plain-text body: the writer holds exactly what \<open>http.Error\<close> wrote, so nothing was done
  for the request afterwards; the handler logged the request and the error with
  \<^verbatim>\<open>log.Printf\<close>, and did not call \<^verbatim>\<open>log.Fatal\<close>. In a run of the server, the requests
  before and after such a request each get the response they get on their own. A request
  whose path is in canonical form and is none of the two data routes gets the greeting
  of the root route, whatever the state of the files.
\<close>

theorem unavailable_data_gives_500:
  "(exhibits_unavailable pf os \<longrightarrow>
      (\<exists>msg. fst (exhibitsHandler pf os newResponseWriter r) = http_Error newResponseWriter msg 500)
      \<and> status (finishRequest (fst (exhibitsHandler pf os newResponseWriter r))) = 500
      \<and> body (fst (exhibitsHandler pf os newResponseWriter r)) \<noteq> []
      \<and> header (fst (exhibitsHandler pf os newResponseWriter r)) ''Content-Type''
          = Some [''text/plain; charset=utf-8'']
      \<and> length (snd (exhibitsHandler pf os newResponseWriter r)) = 2
      \<and> \<not> called_Fatal (snd (exhibitsHandler pf os newResponseWriter r))
      \<and> (Path r = ''/exhibits'' \<longrightarrow>
           status (respond pf os r) = 500 \<and> body (respond pf os r) \<noteq> []))
   \<and> (artefacts_unavailable pf os \<longrightarrow>
      (\<exists>msg. fst (artefactsHandler pf os newResponseWriter r) = http_Error newResponseWriter msg 500)
      \<and> status (finishRequest (fst (artefactsHandler pf os newResponseWriter r))) = 500
      \<and> body (fst (artefactsHandler pf os newResponseWriter r)) \<noteq> []
      \<and> header (fst (artefactsHandler pf os newResponseWriter r)) ''Content-Type''
          = Some [''text/plain; charset=utf-8'']
      \<and> length (snd (artefactsHandler pf os newResponseWriter r)) = 2
      \<and> \<not> called_Fatal (snd (artefactsHandler pf os newResponseWriter r))
      \<and> (Path r = ''/artefacts'' \<longrightarrow>
           status (respond pf os r) = 500 \<and> body (respond pf os r) \<noteq> []))
   \<and> serve pf (earlier @ (os, r) # later) =
        map (\<lambda>(os', r'). respond pf os' r') earlier @ respond pf os r
          # map (\<lambda>(os', r'). respond pf os' r') later
   \<and> ((Method r' = ''CONNECT'' \<or> cleanPath (Path r') = Path r') \<and> prefix ''/'' (Path r')
        \<and> Path r' \<noteq> ''/exhibits'' \<and> Path r' \<noteq> ''/artefacts'' \<longrightarrow>
        status (respond pf os' r') = 200 \<and> body (respond pf os' r') = ''Hello, world!'')"
proof (intro conjI impI)
  assume "exhibits_unavailable pf os"
  from exhibitsHandler_unavailable [OF this, of r] obtain msg line where
    h: "exhibitsHandler pf os newResponseWriter r =
      (http_Error newResponseWriter msg StatusInternalServerError,
       [Printf (''Received request: '' @ Method r @ '' '' @ Path r @ '' from '' @ RemoteAddr r),
        Printf line])"
    by blast
  show "\<exists>msg. fst (exhibitsHandler pf os newResponseWriter r) =
      http_Error newResponseWriter msg 500"
    using h by (auto simp: StatusInternalServerError_def)
  show "status (finishRequest (fst (exhibitsHandler pf os newResponseWriter r))) = 500"
    by (simp add: h http_Error_fresh finishRequest_def StatusInternalServerError_def)
  show "body (fst (exhibitsHandler pf os newResponseWriter r)) \<noteq> []"
    by (simp add: h http_Error_fresh)
  show "header (fst (exhibitsHandler pf os newResponseWriter r)) ''Content-Type''
      = Some [''text/plain; charset=utf-8'']"
    by (simp add: h http_Error_fresh)
  show "length (snd (exhibitsHandler pf os newResponseWriter r)) = 2"
    by (simp add: h)
  show "\<not> called_Fatal (snd (exhibitsHandler pf os newResponseWriter r))"
    by (rule exhibitsHandler_no_Fatal)
  assume "Path r = ''/exhibits''"
  then have "respond pf os r = finishRequest (fst (exhibitsHandler pf os newResponseWriter r))"
    by (rule respond_exhibits)
  then show "status (respond pf os r) = 500" and "body (respond pf os r) \<noteq> []"
    by (simp_all add: h http_Error_fresh finishRequest_def StatusInternalServerError_def)
next
  assume "artefacts_unavailable pf os"
  from artefactsHandler_unavailable [OF this, of r] obtain msg line where
    h: "artefactsHandler pf os newResponseWriter r =
      (http_Error newResponseWriter msg StatusInternalServerError,
       [Printf (''Received request: '' @ Method r @ '' '' @ Path r @ '' from '' @ RemoteAddr r),
        Printf line])"
    by blast
  show "\<exists>msg. fst (artefactsHandler pf os newResponseWriter r) =
      http_Error newResponseWriter msg 500"
    using h by (auto simp: StatusInternalServerError_def)
  show "status (finishRequest (fst (artefactsHandler pf os newResponseWriter r))) = 500"
    by (simp add: h http_Error_fresh finishRequest_def StatusInternalServerError_def)
  show "body (fst (artefactsHandler pf os newResponseWriter r)) \<noteq> []"
    by (simp add: h http_Error_fresh)
  show "header (fst (artefactsHandler pf os newResponseWriter r)) ''Content-Type''
      = Some [''text/plain; charset=utf-8'']"
    by (simp add: h http_Error_fresh)
  show "length (snd (artefactsHandler pf os newResponseWriter r)) = 2"
    by (simp add: h)
  show "\<not> called_Fatal (snd (artefactsHandler pf os newResponseWriter r))"
    by (rule artefactsHandler_no_Fatal)
  assume "Path r = ''/artefacts''"
  then have "respond pf os r = finishRequest (fst (artefactsHandler pf os newResponseWriter r))"
    by (rule respond_artefacts)
  then show "status (respond pf os r) = 500" and "body (respond pf os r) \<noteq> []"
    by (simp_all add: h http_Error_fresh finishRequest_def StatusInternalServerError_def)
next
  show "serve pf (earlier @ (os, r) # later) =
        map (\<lambda>(os', r'). respond pf os' r') earlier @ respond pf os r
          # map (\<lambda>(os', r'). respond pf os' r') later"
    by (simp add: serve_all)
next
  assume a: "(Method r' = ''CONNECT'' \<or> cleanPath (Path r') = Path r') \<and> prefix ''/'' (Path r')
        \<and> Path r' \<noteq> ''/exhibits'' \<and> Path r' \<noteq> ''/artefacts''"
  then have "ServeMux pf os' newResponseWriter r' = rootHandler newResponseWriter r'"
    by (intro ServeMux_root) simp_all
  then have "respond pf os' r' = finishRequest (fst (rootHandler newResponseWriter r'))"
    by (simp add: respond_def)
  then show "status (respond pf os' r') = 200"
    and "body (respond pf os' r') = ''Hello, world!''"
    by (simp_all add: rootHandler_fresh finishRequest_def)
qed

lemma example_exhibits_missing:
  "exhibits_unavailable example_platform example_os_missing"
  by (simp add: exhibits_unavailable_def findFile_def example_os_missing_def)

lemma example_artefacts_missing:
  "artefacts_unavailable example_platform example_os_missing"
  by (simp add: artefacts_unavailable_def findFile_def example_os_missing_def)

lemma example_exhibitsHandler_missing:
  "fst (exhibitsHandler example_platform example_os_missing newResponseWriter r) =
     http_Error newResponseWriter ''Error finding exhibits.json'' 500"
  by (simp add: exhibitsHandler_def findFile_def example_os_missing_def
      StatusInternalServerError_def)

lemma example_artefactsHandler_missing:
  "fst (artefactsHandler example_platform example_os_missing newResponseWriter r) =
     http_Error newResponseWriter ''Error finding `qm_data.json`: file does not exist'' 500"
  by (simp add: artefactsHandler_def findFile_def example_os_missing_def
      StatusInternalServerError_def ErrNotExist_def)

text \<open>
  Three requests while no data file exists: the two data routes answer 500, the root
  route answers after them.
\<close>

theorem unavailable_data_gives_500_witness:
  "exhibits_unavailable example_platform example_os_missing
   \<and> artefacts_unavailable example_platform example_os_missing
   \<and> status (finishRequest (fst (exhibitsHandler example_platform example_os_missing
        newResponseWriter (example_request ''/exhibits'' Map.empty)))) = 500
   \<and> body (fst (exhibitsHandler example_platform example_os_missing
        newResponseWriter (example_request ''/exhibits'' Map.empty)))
       = ''Error finding exhibits.json'' @ [CHR 0x0A]
   \<and> status (finishRequest (fst (artefactsHandler example_platform example_os_missing
        newResponseWriter (example_request ''/exhibits'' Map.empty)))) = 500
   \<and> body (fst (artefactsHandler example_platform example_os_missing
        newResponseWriter (example_request ''/exhibits'' Map.empty)))
       = ''Error finding `qm_data.json`: file does not exist'' @ [CHR 0x0A]
   \<and> Path (example_request ''/exhibits'' Map.empty) = ''/exhibits''
   \<and> status (respond example_platform example_os_missing
        (example_request ''/exhibits'' Map.empty)) = 500
   \<and> cleanPath (Path (example_request ''/'' Map.empty)) = Path (example_request ''/'' Map.empty)
   \<and> prefix ''/'' (Path (example_request ''/'' Map.empty))
   \<and> Path (example_request ''/'' Map.empty) \<noteq> ''/exhibits''
   \<and> Path (example_request ''/'' Map.empty) \<noteq> ''/artefacts''
   \<and> map status (serve example_platform
        [(example_os_missing, example_request ''/exhibits'' Map.empty),
         (example_os_missing, example_request ''/'' Map.empty)]) = [500, 200]
   \<and> map body (serve example_platform
        [(example_os_missing, example_request ''/exhibits'' Map.empty),
         (example_os_missing, example_request ''/'' Map.empty)])
       = [''Error finding exhibits.json'' @ [CHR 0x0A], ''Hello, world!'']"
proof -
  let ?r = "example_request ''/exhibits'' Map.empty"
  let ?root = "example_request ''/'' Map.empty"
  note inst = unavailable_data_gives_500 [of example_platform example_os_missing ?r
      "[]" "[(example_os_missing, ?root)]" ?root example_os_missing]
  have pr: "Path ?r = ''/exhibits''"
    by (simp add: example_request_def)
  have p: "Path ?root \<noteq> ''/exhibits''" "Path ?root \<noteq> ''/artefacts''"
    by (simp_all add: example_request_def)
  have c: "cleanPath (Path ?root) = Path ?root" "prefix ''/'' (Path ?root)"
    by (simp_all add: example_request_def cleanPath_root)
  from inst example_exhibits_missing
  have s1: "status (finishRequest (fst (exhibitsHandler example_platform example_os_missing
        newResponseWriter ?r))) = 500"
    by blast
  from inst example_exhibits_missing pr
  have s1': "status (respond example_platform example_os_missing ?r) = 500"
    by blast
  from inst example_artefacts_missing
  have s2: "status (finishRequest (fst (artefactsHandler example_platform example_os_missing
        newResponseWriter ?r))) = 500"
    by blast
  have b1: "body (fst (exhibitsHandler example_platform example_os_missing
        newResponseWriter ?r)) = ''Error finding exhibits.json'' @ [CHR 0x0A]"
    by (simp add: example_exhibitsHandler_missing http_Error_fresh)
  have b2: "body (fst (artefactsHandler example_platform example_os_missing
        newResponseWriter ?r))
       = ''Error finding `qm_data.json`: file does not exist'' @ [CHR 0x0A]"
    by (simp add: example_artefactsHandler_missing http_Error_fresh)
  from inst p c
  have root: "status (respond example_platform example_os_missing ?root) = 200"
    "body (respond example_platform example_os_missing ?root) = ''Hello, world!''"
    by blast+
  from inst
  have sv: "serve example_platform ([] @ (example_os_missing, ?r) # [(example_os_missing, ?root)]) =
      map (\<lambda>(os', r'). respond example_platform os' r') []
        @ respond example_platform example_os_missing ?r
        # map (\<lambda>(os', r'). respond example_platform os' r') [(example_os_missing, ?root)]"
    by blast
  then have sv': "serve example_platform [(example_os_missing, ?r), (example_os_missing, ?root)] =
      [respond example_platform example_os_missing ?r,
       respond example_platform example_os_missing ?root]"
    by simp
  have first: "respond example_platform example_os_missing ?r =
      finishRequest (fst (exhibitsHandler example_platform example_os_missing
        newResponseWriter ?r))"
    using pr by (rule respond_exhibits)
  have bf: "body (finishRequest (fst (exhibitsHandler example_platform example_os_missing
        newResponseWriter ?r))) = ''Error finding exhibits.json'' @ [CHR 0x0A]"
    by (simp add: example_exhibitsHandler_missing http_Error_fresh finishRequest_def)
  have m1: "map status (serve example_platform
        [(example_os_missing, ?r), (example_os_missing, ?root)]) = [500, 200]"
    unfolding sv' by (simp add: s1' root)
  have m2: "map body (serve example_platform
        [(example_os_missing, ?r), (example_os_missing, ?root)])
       = [''Error finding exhibits.json'' @ [CHR 0x0A], ''Hello, world!'']"
    unfolding sv' by (simp add: first bf root)
  from example_exhibits_missing example_artefacts_missing s1 b1 s2 b2 pr s1' c p m1 m2
  show ?thesis by (simp only: simp_thms)
qed

section \<open>CORS headers\<close>

lemma finishRequest_http_Error:
  "finishRequest (http_Error newResponseWriter msg code) =
     http_Error newResponseWriter msg code"
  by (simp add: http_Error_fresh finishRequest_def)

text \<open>
  C5, as the code has it. A response of \<^verbatim>\<open>/exhibits\<close> or \<^verbatim>\<open>/artefacts\<close> has status 200
  or 500. With status 200 it carries the three CORS headers; with status 500 it carries
  none of them, since the handlers set them only after the data is loaded.
\<close>

theorem cors_headers_on_success_only:
  assumes "Path r = ''/exhibits'' \<or> Path r = ''/artefacts''"
  shows "(status (respond pf os r) = 200 \<or> status (respond pf os r) = 500)
    \<and> (status (respond pf os r) = 200 \<longrightarrow>
         header (respond pf os r) ''Access-Control-Allow-Origin'' = Some [''*'']
         \<and> header (respond pf os r) ''Access-Control-Allow-Methods'' = Some [''GET, OPTIONS'']
         \<and> header (respond pf os r) ''Access-Control-Allow-Headers'' = Some [''Content-Type''])
    \<and> (status (respond pf os r) = 500 \<longrightarrow>
         header (respond pf os r) ''Access-Control-Allow-Origin'' = None
         \<and> header (respond pf os r) ''Access-Control-Allow-Methods'' = None
         \<and> header (respond pf os r) ''Access-Control-Allow-Headers'' = None)"
proof -
  have "(\<exists>msg. respond pf os r = http_Error newResponseWriter msg 500)
      \<or> (status (respond pf os r) = 200 \<and> header (respond pf os r) = json_headers)"
    using assms
  proof
    assume p: "Path r = ''/exhibits''"
    show ?thesis
    proof (cases "exhibits_unavailable pf os")
      case True
      from exhibitsHandler_unavailable [OF this, of r] show ?thesis
        by (auto simp: respond_exhibits [OF p] finishRequest_http_Error
            StatusInternalServerError_def)
    next
      case False
      from exhibits_available [OF this] obtain filePath data exhibits where
        "findFile pf os ''exhibits.json'' = (filePath, None)"
        "ReadFile os filePath = Inr data" "Unmarshal_exhibits pf data = Inr exhibits"
        by blast
      from exhibitsHandler_loaded [OF this, of r] show ?thesis
        by (simp add: respond_exhibits [OF p] Encoder_Encode_fresh_status
            Encoder_Encode_fresh_header)
    qed
  next
    assume p: "Path r = ''/artefacts''"
    show ?thesis
    proof (cases "artefacts_unavailable pf os")
      case True
      from artefactsHandler_unavailable [OF this, of r] show ?thesis
        by (auto simp: respond_artefacts [OF p] finishRequest_http_Error
            StatusInternalServerError_def)
    next
      case False
      from artefacts_available [OF this] obtain filePath data qmResponse where
        "findFile pf os ''qm_data.json'' = (filePath, None)"
        "ReadFile os filePath = Inr data" "Unmarshal_QMResponse pf data = Inr qmResponse"
        by blast
      from artefactsHandler_loaded [OF this, of r] show ?thesis
        by (simp add: respond_artefacts [OF p] Encoder_Encode_fresh_status
            Encoder_Encode_fresh_header)
    qed
  qed
  then show ?thesis
  proof
    assume "\<exists>msg. respond pf os r = http_Error newResponseWriter msg 500"
    then obtain msg where "respond pf os r = http_Error newResponseWriter msg 500" by blast
    then show ?thesis by (simp add: http_Error_fresh)
  next
    assume "status (respond pf os r) = 200 \<and> header (respond pf os r) = json_headers"
    then show ?thesis by (simp add: json_headers_def)
  qed
qed

theorem cors_headers_on_success_only_witness:
  "Path (example_request ''/exhibits'' Map.empty) = ''/exhibits''
   \<and> status (respond example_platform example_os (example_request ''/exhibits'' Map.empty)) = 200
   \<and> header (respond example_platform example_os (example_request ''/exhibits'' Map.empty))
        ''Access-Control-Allow-Origin'' = Some [''*'']
   \<and> header (respond example_platform example_os (example_request ''/exhibits'' Map.empty))
        ''Access-Control-Allow-Methods'' = Some [''GET, OPTIONS'']
   \<and> header (respond example_platform example_os (example_request ''/exhibits'' Map.empty))
        ''Access-Control-Allow-Headers'' = Some [''Content-Type'']
   \<and> Path (example_request ''/artefacts'' Map.empty) = ''/artefacts''
   \<and> status (respond example_platform example_os_missing
        (example_request ''/artefacts'' Map.empty)) = 500
   \<and> header (respond example_platform example_os_missing
        (example_request ''/artefacts'' Map.empty)) ''Access-Control-Allow-Origin'' = None"
proof -
  let ?r = "example_request ''/exhibits'' Map.empty"
  let ?a = "example_request ''/artefacts'' Map.empty"
  have p: "Path ?r = ''/exhibits''" and pa: "Path ?a = ''/artefacts''"
    by (simp_all add: example_request_def)
  have s: "status (respond example_platform example_os ?r) = 200"
    by (simp add: respond_exhibits [OF p]
        exhibitsHandler_loaded [OF example_findFile_exhibits example_ReadFile_exhibits
          example_Unmarshal_exhibits]
        Encoder_Encode_fresh_status)
  have sa: "status (respond example_platform example_os_missing ?a) = 500"
    by (simp add: respond_artefacts [OF pa] example_artefactsHandler_missing
        finishRequest_def http_Error_fresh)
  from p have "Path ?r = ''/exhibits'' \<or> Path ?r = ''/artefacts''" by simp
  from cors_headers_on_success_only [OF this, of example_platform example_os] s
  have h: "header (respond example_platform example_os ?r) ''Access-Control-Allow-Origin''
        = Some [''*'']"
    "header (respond example_platform example_os ?r) ''Access-Control-Allow-Methods''
        = Some [''GET, OPTIONS'']"
    "header (respond example_platform example_os ?r) ''Access-Control-Allow-Headers''
        = Some [''Content-Type'']"
    by blast+
  from pa have "Path ?a = ''/exhibits'' \<or> Path ?a = ''/artefacts''" by simp
  from cors_headers_on_success_only [OF this, of example_platform example_os_missing] sa
  have ha: "header (respond example_platform example_os_missing ?a)
        ''Access-Control-Allow-Origin'' = None"
    by blast
  from p s h pa sa ha show ?thesis by (simp only: simp_thms)
qed

text \<open>
  The claim as stated fails: with the data file missing, the response of \<^verbatim>\<open>/exhibits\<close>
  is a 500 without \<^verbatim>\<open>Access-Control-Allow-Origin\<close>.
\<close>

theorem cors_headers_absent_on_error:
  "Path (example_request ''/exhibits'' Map.empty) = ''/exhibits''
   \<and> status (respond example_platform example_os_missing
        (example_request ''/exhibits'' Map.empty)) = 500
   \<and> header (respond example_platform example_os_missing
        (example_request ''/exhibits'' Map.empty)) ''Access-Control-Allow-Origin''
       \<noteq> Some [''*'']"
proof -
  have p: "Path (example_request ''/exhibits'' Map.empty) = ''/exhibits''"
    by (simp add: example_request_def)
  show ?thesis
    by (simp add: p respond_exhibits [OF p] example_exhibitsHandler_missing
        finishRequest_def http_Error_fresh)
qed

section \<open>The artefact envelope\<close>

text \<open>
  The part of C7 that holds of the code. For two datasets that decode to envelopes with
  the same \<open>results\<close> and two requests with the same \<open>objectNumbers\<close> value, the response
  bodies are equal, whatever \<open>count\<close>, \<open>next\<close> and \<open>previous\<close> are. Whenever the slice
  handed to the encoder is not nil (no filter and a non-nil \<open>results\<close>, or a filter that
  selects at least one record) and its records encode, the body is the bracketed,
  comma-separated list of the encoded records and a newline: a bare array, no envelope.
\<close>

theorem artefacts_body_from_results_only:
  assumes "findFile pf os1 ''qm_data.json'' = (filePath1, None)"
    and "ReadFile os1 filePath1 = Inr data1"
    and "Unmarshal_QMResponse pf data1 = Inr q1"
    and "findFile pf os2 ''qm_data.json'' = (filePath2, None)"
    and "ReadFile os2 filePath2 = Inr data2"
    and "Unmarshal_QMResponse pf data2 = Inr q2"
    and "Results q1 = Results q2"
    and "Values_Get (Query r1) ''objectNumbers'' = objectNumbersParam"
    and "Values_Get (Query r2) ''objectNumbers'' = objectNumbersParam"
  shows "body (fst (artefactsHandler pf os1 newResponseWriter r1)) =
         body (fst (artefactsHandler pf os2 newResponseWriter r2))
    \<and> (\<forall>xs bs.
          ((objectNumbersParam = [] \<and> Results q1 = Slice xs)
           \<or> (objectNumbersParam \<noteq> [] \<and> xs \<noteq> []
               \<and> xs = filter (\<lambda>a. \<exists>tok \<in> set (Split objectNumbersParam CHR '','').
                                     ObjectNumber a = TrimSpace tok) (elems (Results q1))))
          \<and> marshal_elems (Marshal_ArtefactDTO pf) xs = Inr bs
          \<longrightarrow> body (fst (artefactsHandler pf os1 newResponseWriter r1)) =
                ''['' @ join_comma bs @ '']'' @ [CHR 0x0A])"
proof -
  let ?sel = "\<lambda>q. (if objectNumbersParam \<noteq> []
        then artefacts_filter_loop (elems (Results q))
               (elems (artefacts_parse_loop (Split objectNumbersParam CHR '','') NilSlice))
               NilSlice
        else Results q)"
  have b1: "body (fst (artefactsHandler pf os1 newResponseWriter r1)) =
      (case Encode_slice (Marshal_ArtefactDTO pf) (?sel q1) of Inr b \<Rightarrow> b | Inl e \<Rightarrow> [])"
    by (simp only: artefactsHandler_loaded [OF assms(1-3)] assms(8) Encoder_Encode_fresh_body)
  have b2: "body (fst (artefactsHandler pf os2 newResponseWriter r2)) =
      (case Encode_slice (Marshal_ArtefactDTO pf) (?sel q2) of Inr b \<Rightarrow> b | Inl e \<Rightarrow> [])"
    by (simp only: artefactsHandler_loaded [OF assms(4-6)] assms(9) Encoder_Encode_fresh_body)
  have same: "body (fst (artefactsHandler pf os1 newResponseWriter r1)) =
         body (fst (artefactsHandler pf os2 newResponseWriter r2))"
    by (simp only: b1 b2 assms(7))
  have array: "body (fst (artefactsHandler pf os1 newResponseWriter r1)) =
                ''['' @ join_comma bs @ '']'' @ [CHR 0x0A]"
    if sel: "(objectNumbersParam = [] \<and> Results q1 = Slice xs)
           \<or> (objectNumbersParam \<noteq> [] \<and> xs \<noteq> []
               \<and> xs = filter (\<lambda>a. \<exists>tok \<in> set (Split objectNumbersParam CHR '','').
                                     ObjectNumber a = TrimSpace tok) (elems (Results q1)))"
      and enc: "marshal_elems (Marshal_ArtefactDTO pf) xs = Inr bs" for xs bs
  proof -
    have f: "filter (\<lambda>a. ObjectNumber a \<in> set (elems (artefacts_parse_loop
                (Split objectNumbersParam CHR '','') NilSlice))) (elems (Results q1)) =
             filter (\<lambda>a. \<exists>tok \<in> set (Split objectNumbersParam CHR '','').
                           ObjectNumber a = TrimSpace tok) (elems (Results q1))"
      by (auto simp: artefacts_parse_loop_elems intro: filter_cong)
    from sel have "?sel q1 = Slice xs"
      by (auto simp: artefacts_filter_loop_eq f)
    with enc show ?thesis
      by (simp add: b1 Encode_slice_def)
  qed
  from same array show ?thesis by blast
qed

text \<open>The artefact file with the same records in a different envelope.\<close>

definition example_os_other_envelope :: os where
  "example_os_other_envelope =
    \<lparr>Stat_ok = (\<lambda>p. p = ''exhibits.json'' \<or> p = ''qm_data.json''),
     Executable = Inr ''/app/stub-exhibits-api'',
     Getwd = Inr ''/app'',
     ReadFile =
       (\<lambda>p. if p = ''exhibits.json'' then Inr ''EXHIBITS''
            else if p = ''qm_data.json'' then Inr ''QM2''
            else Inl (ErrorString ''no such file or directory''))\<rparr>"

lemma example_Split_Q11: "Split ''Q1.1'' CHR '','' = [''Q1.1'']"
  by code_simp

lemma example_TrimSpace_Q11: "TrimSpace ''Q1.1'' = ''Q1.1''"
  by code_simp

theorem artefacts_body_from_results_only_witness:
  "findFile example_platform example_os ''qm_data.json'' = (''qm_data.json'', None)
   \<and> ReadFile example_os ''qm_data.json'' = Inr ''QM''
   \<and> Unmarshal_QMResponse example_platform ''QM'' = Inr (example_envelope 3 ''page2'')
   \<and> findFile example_platform example_os_other_envelope ''qm_data.json''
       = (''qm_data.json'', None)
   \<and> ReadFile example_os_other_envelope ''qm_data.json'' = Inr ''QM2''
   \<and> Unmarshal_QMResponse example_platform ''QM2'' = Inr (example_envelope 7 [])
   \<and> Results (example_envelope 3 ''page2'') = Results (example_envelope 7 [])
   \<and> example_envelope 3 ''page2'' \<noteq> example_envelope 7 []
   \<and> Values_Get (Query (example_request ''/artefacts'' [''objectNumbers'' \<mapsto> [''Q1.1'']]))
        ''objectNumbers'' = ''Q1.1''
   \<and> filter (\<lambda>a. \<exists>tok \<in> set (Split ''Q1.1'' CHR '','').  ObjectNumber a = TrimSpace tok)
        (elems (Results (example_envelope 3 ''page2''))) = [artefact_of ''Q1.1'' ''bowl'']
   \<and> marshal_elems (Marshal_ArtefactDTO example_platform) [artefact_of ''Q1.1'' ''bowl'']
       = Inr [''{bowl}'']
   \<and> body (fst (artefactsHandler example_platform example_os newResponseWriter
        (example_request ''/artefacts'' [''objectNumbers'' \<mapsto> [''Q1.1'']])))
       = ''[{bowl}]'' @ [CHR 0x0A]
   \<and> body (fst (artefactsHandler example_platform example_os_other_envelope newResponseWriter
        (example_request ''/artefacts'' [''objectNumbers'' \<mapsto> [''Q1.1'']])))
       = ''[{bowl}]'' @ [CHR 0x0A]"
proof -
  let ?r = "example_request ''/artefacts'' [''objectNumbers'' \<mapsto> [''Q1.1'']]"
  have f2: "findFile example_platform example_os_other_envelope ''qm_data.json''
       = (''qm_data.json'', None)"
    by (simp add: findFile_def example_os_other_envelope_def)
  have r2: "ReadFile example_os_other_envelope ''qm_data.json'' = Inr ''QM2''"
    by (simp add: example_os_other_envelope_def)
  have u2: "Unmarshal_QMResponse example_platform ''QM2'' = Inr (example_envelope 7 [])"
    by (simp add: example_platform_def)
  have res: "Results (example_envelope 3 ''page2'') = Results (example_envelope 7 [])"
    and diff: "example_envelope 3 ''page2'' \<noteq> example_envelope 7 []"
    by (simp_all add: example_envelope_def)
  have get: "Values_Get (Query ?r) ''objectNumbers'' = ''Q1.1''"
    by (simp add: Values_Get_def example_request_def)
  have sel: "filter (\<lambda>a. \<exists>tok \<in> set (Split ''Q1.1'' CHR '','').  ObjectNumber a = TrimSpace tok)
        (elems (Results (example_envelope 3 ''page2''))) = [artefact_of ''Q1.1'' ''bowl'']"
    by (simp add: example_Split_Q11 example_TrimSpace_Q11 example_envelope_def
        example_artefacts_def artefact_of_def)
  have enc: "marshal_elems (Marshal_ArtefactDTO example_platform)
        [artefact_of ''Q1.1'' ''bowl''] = Inr [''{bowl}'']"
    by (simp add: example_platform_def artefact_of_def)
  note inst = artefacts_body_from_results_only [OF example_findFile_qm example_ReadFile_qm
      example_Unmarshal_qm f2 r2 u2 res get get]
  have ne: "[artefact_of ''Q1.1'' ''bowl''] \<noteq> []" by simp
  from sel enc ne
  have pre: "((''Q1.1'' = [] \<and> Results (example_envelope 3 ''page2'')
                 = Slice [artefact_of ''Q1.1'' ''bowl''])
           \<or> (''Q1.1'' \<noteq> [] \<and> [artefact_of ''Q1.1'' ''bowl''] \<noteq> []
               \<and> [artefact_of ''Q1.1'' ''bowl'']
                  = filter (\<lambda>a. \<exists>tok \<in> set (Split ''Q1.1'' CHR '','').
                                     ObjectNumber a = TrimSpace tok)
                      (elems (Results (example_envelope 3 ''page2'')))))
          \<and> marshal_elems (Marshal_ArtefactDTO example_platform)
               [artefact_of ''Q1.1'' ''bowl''] = Inr [''{bowl}'']"
    by (simp only: simp_thms) simp
  from inst [THEN conjunct2, rule_format, OF pre]
  have b1: "body (fst (artefactsHandler example_platform example_os newResponseWriter ?r))
       = ''['' @ join_comma [''{bowl}''] @ '']'' @ [CHR 0x0A]" .
  then have b1': "body (fst (artefactsHandler example_platform example_os newResponseWriter ?r))
       = ''[{bowl}]'' @ [CHR 0x0A]"
    by simp
  from inst b1'
  have b2: "body (fst (artefactsHandler example_platform example_os_other_envelope
        newResponseWriter ?r)) = ''[{bowl}]'' @ [CHR 0x0A]"
    by simp
  from example_findFile_qm example_ReadFile_qm example_Unmarshal_qm f2 r2 u2 res diff get
    sel enc b1' b2
  show ?thesis by (simp only: simp_thms)
qed

text \<open>
  C7. The claim has the body be a bare JSON array for every dataset that decodes and
  every \<open>objectNumbers\<close> value. The code departs from it where a filter selects no record:
  \<^verbatim>\<open>filteredArtefacts\<close> is declared nil and only appended to, so it is still nil when it
  is encoded, and the body is \<^verbatim>\<open>null\<close> and a newline. It is the defect of C3, met on
  the artefact route; here it is evaluated on the example dataset for the value
  \<^verbatim>\<open>NONEXISTENT\<close>.
\<close>

theorem artefacts_body_null_not_array:
  "Values_Get (Query (example_request ''/artefacts'' [''objectNumbers'' \<mapsto> [''NONEXISTENT'']]))
     ''objectNumbers'' = ''NONEXISTENT''
   \<and> body (fst (artefactsHandler example_platform example_os newResponseWriter
        (example_request ''/artefacts'' [''objectNumbers'' \<mapsto> [''NONEXISTENT'']])))
       = ''null'' @ [CHR 0x0A]
   \<and> hd (body (fst (artefactsHandler example_platform example_os newResponseWriter
        (example_request ''/artefacts'' [''objectNumbers'' \<mapsto> [''NONEXISTENT'']]))))
       \<noteq> CHR ''[''"
proof -
  let ?r = "example_request ''/artefacts'' [''objectNumbers'' \<mapsto> [''NONEXISTENT'']]"
  have get: "Values_Get (Query ?r) ''objectNumbers'' = ''NONEXISTENT''"
    by (simp add: Values_Get_def example_request_def)
  have "filter (\<lambda>a. ObjectNumber a \<in> set (elems (artefacts_parse_loop
          (Split ''NONEXISTENT'' CHR '','') NilSlice)))
          (elems (Results (example_envelope 3 ''page2''))) = []"
    by (simp add: example_Split_NONEXISTENT example_TrimSpace_NONEXISTENT
        example_envelope_def example_artefacts_def artefact_of_def)
  then have "artefacts_filter_loop (elems (Results (example_envelope 3 ''page2'')))
      (elems (artefacts_parse_loop (Split ''NONEXISTENT'' CHR '','') NilSlice)) NilSlice
      = NilSlice"
    by (simp add: artefacts_filter_loop_eq)
  then have "body (fst (artefactsHandler example_platform example_os newResponseWriter ?r))
       = ''null'' @ [CHR 0x0A]"
    by (simp add: artefactsHandler_loaded [OF example_findFile_qm example_ReadFile_qm
          example_Unmarshal_qm] get Encoder_Encode_fresh_body Encode_slice_def)
  with get show ?thesis by simp
qed

section \<open>Facts about the decoders\<close>

lemma first_multi:
  assumes "first b < 0xF0"
  shows "first b mod 8 \<in> {2, 3, 4}" and "first b div 16 \<le> 4" and "0xC2 \<le> b"
  using assms by (simp_all add: first_def split: if_splits)

lemma first_single:
  assumes "\<not> first b < 0xF0"
  shows "first b = 0xF0 \<and> b < 0x80 \<or> first b = 0xF1 \<and> 0x80 \<le> b"
  using assms by (simp add: first_def split: if_splits)

lemma first_not_start: "\<not> RuneStart b \<Longrightarrow> first b = 0xF1"
  by (simp add: first_def RuneStart_def)

lemma acceptRanges_cont:
  assumes "i \<le> 4"
  shows "0x80 \<le> fst (acceptRanges i)" and "snd (acceptRanges i) \<le> 0xBF"
  using assms by (simp_all add: acceptRanges_def)

lemma DecodeRune_ascii:
  assumes "s \<noteq> []" and "byte (hd s) < 0x80"
  shows "DecodeRuneInString s = (int (byte (hd s)), 1)"
  using assms by (cases s) (simp_all add: DecodeRuneInString_def first_def Let_def)

lemma DecodeRune_not_start:
  assumes "s \<noteq> []" and "\<not> RuneStart (byte (hd s))"
  shows "DecodeRuneInString s = (RuneError, 1)"
  using assms first_not_start [of "byte (hd s)"]
  by (cases s) (simp_all add: DecodeRuneInString_def Let_def)

lemma IsSpace_RuneError: "\<not> IsSpace RuneError"
  by (simp add: IsSpace_def RuneError_def White_Space_above_Latin1_def)

lemma IsSpace_ascii: "c < 0x80 \<Longrightarrow> IsSpace (int c) = asciiSpace c"
  by (auto simp: IsSpace_def asciiSpace_def)

text \<open>
  A decoding that is not \<open>RuneError\<close>, or is wider than one byte, lies within the
  string and does not depend on what follows it.
\<close>

lemma DecodeRune_valid:
  assumes "DecodeRuneInString u = (r, w)" and "r \<noteq> RuneError \<or> 2 \<le> w"
  shows "1 \<le> w \<and> w \<le> length u \<and> DecodeRuneInString (u @ v) = (r, w)"
proof (cases "first (byte (u ! 0)) < 0xF0")
  case False
  from first_single [OF this] assms show ?thesis
    by (cases u) (auto simp: DecodeRuneInString_def Let_def RuneError_def split: if_splits)
next
  case True
  note m = first_multi [OF True]
  have nth: "(u @ v) ! i = u ! i" if "i < length u" for i
    using that by (simp add: nth_append)
  from assms True have len: "first (byte (u ! 0)) mod 8 \<le> length u"
    by (auto simp: DecodeRuneInString_def Let_def split: if_splits)
  from m(1) consider "first (byte (u ! 0)) mod 8 = 2" | "first (byte (u ! 0)) mod 8 = 3"
    | "first (byte (u ! 0)) mod 8 = 4"
    by auto
  then show ?thesis
  proof cases
    case 1
    with len have "0 < length u" "1 < length u" by linarith+
    then have "(u @ v) ! 0 = u ! 0" "(u @ v) ! 1 = u ! 1"
      by (simp_all only: nth)
    with assms True 1 len show ?thesis
      by (auto simp: DecodeRuneInString_def Let_def split: if_splits)
  next
    case 2
    with len have "0 < length u" "1 < length u" "2 < length u" by linarith+
    then have "(u @ v) ! 0 = u ! 0" "(u @ v) ! 1 = u ! 1" "(u @ v) ! 2 = u ! 2"
      by (simp_all only: nth)
    with assms True 2 len show ?thesis
      by (auto simp: DecodeRuneInString_def Let_def split: if_splits)
  next
    case 3
    with len have "0 < length u" "1 < length u" "2 < length u" "3 < length u" by linarith+
    then have "(u @ v) ! 0 = u ! 0" "(u @ v) ! 1 = u ! 1" "(u @ v) ! 2 = u ! 2"
      "(u @ v) ! 3 = u ! 3"
      by (simp_all only: nth)
    with assms True 3 len show ?thesis
      by (auto simp: DecodeRuneInString_def Let_def split: if_splits)
  qed
qed

lemma DecodeRune_single_high:
  assumes "0x80 \<le> byte b"
  shows "DecodeRuneInString [b] = (RuneError, 1)"
proof (cases "first (byte b) < 0xF0")
  case True
  from first_multi(1) [OF this] True show ?thesis
    by (auto simp: DecodeRuneInString_def Let_def)
next
  case False
  from first_single [OF this] assms False show ?thesis
    by (auto simp: DecodeRuneInString_def Let_def)
qed

text \<open>
  A decoding that covers the whole string stays the same when the string is followed
  by a byte that starts a rune.
\<close>

lemma DecodeRune_whole:
  assumes "u \<noteq> []" and "DecodeRuneInString u = (r, length u)"
    and "v = [] \<or> RuneStart (byte (hd v))"
  shows "DecodeRuneInString (u @ v) = (r, length u)"
proof (cases "2 \<le> length u")
  case True
  with DecodeRune_valid [OF assms(2), of v] show ?thesis by simp
next
  case False
  with assms(1) have "length u = 1" by (cases u) (auto simp: Suc_le_eq)
  then obtain b where u: "u = [b]" by (cases u) auto
  show ?thesis
  proof (cases "v = []")
    case True
    with assms(2) show ?thesis by simp
  next
    case False
    with assms(3) have st: "RuneStart (byte (hd v))" by simp
    from False have hd: "(b # v) ! 1 = hd v" by (cases v) simp_all
    from False obtain c cs where v: "v = c # cs" by (cases v) auto
    show ?thesis
    proof (cases "first (byte b) < 0xF0")
      case True
      note m = first_multi [OF True]
      from acceptRanges_cont [OF m(2)] st
      have out: "byte c < fst (acceptRanges (first (byte b) div 16))
          \<or> snd (acceptRanges (first (byte b) div 16)) < byte c"
        by (auto simp: RuneStart_def v)
      from m(1) True have "DecodeRuneInString [b] = (RuneError, 1)"
        by (auto simp: DecodeRuneInString_def Let_def)
      moreover from True out have "DecodeRuneInString (b # c # cs) = (RuneError, 1)"
        by (simp add: DecodeRuneInString_def Let_def)
      ultimately show ?thesis using assms(2) u v by simp
    next
      case False
      with assms(2) u show ?thesis
        by (auto simp: DecodeRuneInString_def Let_def)
    qed
  qed
qed

text \<open>
  What \<open>DecodeLastRuneInString\<close> returns is what \<open>DecodeRuneInString\<close> returns for the
  last \<open>w\<close> bytes, where \<open>w\<close> is the width it returns.
\<close>

lemma DecodeLastRune_as_DecodeRune:
  assumes "t \<noteq> []" and "DecodeLastRuneInString t = (r, w)"
  shows "1 \<le> w \<and> w \<le> length t \<and> DecodeRuneInString (drop (length t - w) t) = (r, w)"
proof -
  define e where "e = int (length t)"
  define lim where "lim = (if e - int UTFMax < 0 then 0 else e - int UTFMax)"
  define st where
    "st = (let x = DecodeLastRune_scan t lim (e - 1 - 1) in if x < 0 then 0 else x)"
  from assms have "0 < e" by (simp add: e_def)
  with DecodeLastRune_scan_le [of t lim "e - 1 - 1"] have st: "st < e" "0 \<le> st"
    by (auto simp: st_def Let_def)
  have eq: "DecodeLastRuneInString t =
      (if int (byte (t ! nat (e - 1))) < int RuneSelf then (int (byte (t ! nat (e - 1))), 1)
       else (case DecodeRuneInString (drop (nat st) t) of
               (r, wid) \<Rightarrow> if st + int wid \<noteq> e then (RuneError, 1) else (r, wid)))"
    using \<open>0 < e\<close> unfolding DecodeLastRuneInString_def Let_def st_def lim_def e_def
    by simp
  from assms(1) have "nat (e - 1) = length t - 1"
    by (simp add: e_def nat_diff_distrib')
  with assms(1) have last: "t ! nat (e - 1) = last t"
    by (simp add: last_conv_nth)
  from assms(1) have "drop (length t - 1) t = [last t]"
    by (metis append_butlast_last_id append_eq_conv_conj length_butlast)
  then have lastd: "drop (length t - Suc 0) t = [last t]" by simp
  show ?thesis
  proof (cases "byte (last t) < RuneSelf")
    case True
    with eq assms(2) last have "r = int (byte (last t))" "w = 1" by simp_all
    with True lastd assms(1) show ?thesis
      by (simp add: DecodeRune_ascii RuneSelf_def Suc_leI)
  next
    case False
    obtain r' w' where d: "DecodeRuneInString (drop (nat st) t) = (r', w')"
      by (cases "DecodeRuneInString (drop (nat st) t)")
    show ?thesis
    proof (cases "st + int w' = e")
      case True
      with eq assms(2) last False d have "r = r'" "w = w'" by simp_all
      moreover from True st have "nat st = length t - w'" "w' \<le> length t"
        by (simp_all add: e_def)
      moreover from st have "drop (nat st) t \<noteq> []" by (simp add: e_def)
      from DecodeRuneInString_size_pos [OF this] d have "1 \<le> w'" by simp
      ultimately show ?thesis using d by simp
    next
      case ne: False
      with eq assms(2) last False d have "r = RuneError" "w = 1" by simp_all
      moreover from False have "0x80 \<le> byte (last t)" by (simp add: RuneSelf_def)
      from DecodeRune_single_high [OF this]
      have "DecodeRuneInString (drop (length t - 1) t) = (RuneError, 1)"
        using lastd by simp
      moreover from assms(1) have "1 \<le> length t" by (cases t) simp_all
      ultimately show ?thesis by simp
    qed
  qed
qed


section \<open>White space at the ends of a string\<close>

definition hasLeadingSpace :: "string \<Rightarrow> bool" where
  "hasLeadingSpace s = IsSpace (fst (DecodeRuneInString s))"

definition hasTrailingSpace :: "string \<Rightarrow> bool" where
  "hasTrailingSpace s = IsSpace (fst (DecodeLastRuneInString s))"

lemma DecodeRune_Nil: "DecodeRuneInString [] = (RuneError, 0)"
  by (simp add: DecodeRuneInString_def)

lemma DecodeLastRune_Nil: "DecodeLastRuneInString [] = (RuneError, 0)"
  by (simp add: DecodeLastRuneInString_def)

lemma hasLeadingSpace_Nil [simp]: "\<not> hasLeadingSpace []"
  by (simp add: hasLeadingSpace_def DecodeRune_Nil IsSpace_RuneError)

lemma hasTrailingSpace_Nil [simp]: "\<not> hasTrailingSpace []"
  by (simp add: hasTrailingSpace_def DecodeLastRune_Nil IsSpace_RuneError)

lemma no_leading_take:
  assumes "\<not> hasLeadingSpace v"
  shows "\<not> hasLeadingSpace (take m v)"
proof -
  obtain r w where d: "DecodeRuneInString (take m v) = (r, w)"
    by (cases "DecodeRuneInString (take m v)")
  show ?thesis
  proof (cases "r \<noteq> RuneError \<or> 2 \<le> w")
    case True
    from DecodeRune_valid [OF d True, of "drop m v"]
    have "DecodeRuneInString v = (r, w)" by simp
    with assms d show ?thesis by (simp add: hasLeadingSpace_def)
  next
    case False
    with d show ?thesis by (simp add: hasLeadingSpace_def IsSpace_RuneError)
  qed
qed

lemma no_leading_ascii:
  assumes "s \<noteq> []" and "byte (hd s) < 0x80" and "\<not> asciiSpace (byte (hd s))"
  shows "\<not> hasLeadingSpace s"
  using assms by (simp add: hasLeadingSpace_def DecodeRune_ascii IsSpace_ascii)

lemma indexFunc_loop_result:
  assumes "indexFunc_loop s f truth i = j"
  shows "j = - 1
    \<or> (0 \<le> j \<and> nat j < length s \<and> f (fst (DecodeRuneInString (drop (nat j) s))) = truth)"
  using assms
proof (induction s f truth i rule: indexFunc_loop.induct)
  case (1 s f truth i)
  show ?case
  proof (cases "i < length s")
    case False
    with "1.prems" show ?thesis by (subst (asm) indexFunc_loop.simps) simp
  next
    case True
    obtain r wid where d: "DecodeRuneInString (drop i s) = (r, wid)"
      by (cases "DecodeRuneInString (drop i s)")
    show ?thesis
    proof (cases "f r = truth")
      case hit: True
      from "1.prems" True d hit have "j = int i"
        by (subst (asm) indexFunc_loop.simps) simp
      with True d hit show ?thesis by simp
    next
      case miss: False
      from "1.prems" True d miss have "indexFunc_loop s f truth (i + wid) = j"
        by (subst (asm) indexFunc_loop.simps) simp
      from "1.IH" [OF True d [symmetric] miss this] show ?thesis .
    qed
  qed
qed

lemma TrimLeftFunc_no_leading: "\<not> hasLeadingSpace (TrimLeftFunc s IsSpace)"
proof -
  from indexFunc_loop_result [of s IsSpace False 0 "indexFunc s IsSpace False"]
  show ?thesis
    by (auto simp: TrimLeftFunc_def Let_def hasLeadingSpace_def indexFunc_def DecodeRune_Nil
        IsSpace_RuneError)
qed

lemma TrimRightFunc_take: "\<exists>k. TrimRightFunc s f = take k s"
  by (auto simp: TrimRightFunc_def Let_def)

lemma TrimSpace_stop_take: "\<exists>k. TrimSpace_stop s start stop = take k (drop start s)"
proof (induction s start stop rule: TrimSpace_stop.induct)
  case (1 s start stop)
  have slice: "drop start (take stop s) = take (stop - start) (drop start s)"
    by (simp add: drop_take)
  show ?case
  proof (cases "stop > start")
    case False
    then have "TrimSpace_stop s start stop = drop start (take stop s)"
      by (subst TrimSpace_stop.simps) simp
    with slice show ?thesis by metis
  next
    case True
    let ?c = "byte (s ! (stop - 1))"
    show ?thesis
    proof (cases "?c \<ge> RuneSelf")
      case high: True
      with True have "TrimSpace_stop s start stop =
          TrimRightFunc (drop start (take stop s)) IsSpace"
        by (subst TrimSpace_stop.simps) simp
      moreover obtain k where
        "TrimRightFunc (drop start (take stop s)) IsSpace = take k (drop start (take stop s))"
        using TrimRightFunc_take by blast
      ultimately have "TrimSpace_stop s start stop =
          take (min k (stop - start)) (drop start s)"
        by (simp add: slice)
      then show ?thesis by blast
    next
      case low: False
      show ?thesis
      proof (cases "asciiSpace ?c")
        case False
        with True low have "TrimSpace_stop s start stop = drop start (take stop s)"
          by (subst TrimSpace_stop.simps) simp
        with slice show ?thesis by metis
      next
        case sp: True
        with True low have "TrimSpace_stop s start stop = TrimSpace_stop s start (stop - 1)"
          by (subst TrimSpace_stop.simps) simp
        with "1.IH" [OF True refl low] sp show ?thesis by simp
      qed
    qed
  qed
qed

lemma TrimSpace_start_no_leading: "\<not> hasLeadingSpace (TrimSpace_start s start)"
proof (induction s start rule: TrimSpace_start.induct)
  case (1 s start)
  show ?case
  proof (cases "start < length s")
    case False
    then have "TrimSpace_start s start = TrimSpace_stop s start (length s)"
      by (subst TrimSpace_start.simps) simp
    moreover obtain k where "TrimSpace_stop s start (length s) = take k (drop start s)"
      using TrimSpace_stop_take by blast
    ultimately show ?thesis using False by simp
  next
    case True
    let ?c = "byte (s ! start)"
    show ?thesis
    proof (cases "?c \<ge> RuneSelf")
      case high: True
      with True have "TrimSpace_start s start = TrimFunc (drop start s) IsSpace"
        by (subst TrimSpace_start.simps) simp
      moreover obtain k where "TrimFunc (drop start s) IsSpace =
          take k (TrimLeftFunc (drop start s) IsSpace)"
        using TrimRightFunc_take unfolding TrimFunc_def by blast
      ultimately show ?thesis
        using no_leading_take [OF TrimLeftFunc_no_leading] by simp
    next
      case low: False
      show ?thesis
      proof (cases "asciiSpace ?c")
        case False
        with True low have "TrimSpace_start s start = TrimSpace_stop s start (length s)"
          by (subst TrimSpace_start.simps) simp
        moreover obtain k where "TrimSpace_stop s start (length s) = take k (drop start s)"
          using TrimSpace_stop_take by blast
        moreover from True have "drop start s \<noteq> []" "hd (drop start s) = s ! start"
          by (simp_all add: hd_drop_conv_nth)
        with low False have "\<not> hasLeadingSpace (drop start s)"
          by (intro no_leading_ascii) (simp_all add: RuneSelf_def)
        ultimately show ?thesis using no_leading_take by simp
      next
        case sp: True
        with True low have "TrimSpace_start s start = TrimSpace_start s (start + 1)"
          by (subst TrimSpace_start.simps) simp
        with "1.IH" [OF True refl low] sp show ?thesis by simp
      qed
    qed
  qed
qed

lemma TrimSpace_no_leading: "\<not> hasLeadingSpace (TrimSpace s)"
  by (simp add: TrimSpace_def TrimSpace_start_no_leading)

lemma DecodeLastRune_ascii:
  assumes "t \<noteq> []" and "byte (last t) < 0x80"
  shows "DecodeLastRuneInString t = (int (byte (last t)), 1)"
proof -
  from assms(1) have "nat (int (length t) - 1) = length t - 1"
    by (simp add: nat_diff_distrib')
  with assms(1) have "t ! nat (int (length t) - 1) = last t"
    by (simp add: last_conv_nth)
  with assms show ?thesis
    by (simp add: DecodeLastRuneInString_def Let_def RuneSelf_def)
qed

text \<open>A space that ends a string begins at a byte that starts a rune.\<close>

lemma DecodeLastRune_space_start:
  assumes "DecodeLastRuneInString t = (r, w)" and "IsSpace r"
  shows "t \<noteq> [] \<and> 1 \<le> w \<and> w \<le> length t \<and> RuneStart (byte (t ! (length t - w)))"
proof -
  from assms have ne: "t \<noteq> []"
    by (auto simp: DecodeLastRune_Nil IsSpace_RuneError)
  from DecodeLastRune_as_DecodeRune [OF ne assms(1)]
  have w: "1 \<le> w" "w \<le> length t"
    and d: "DecodeRuneInString (drop (length t - w) t) = (r, w)"
    by simp_all
  from w ne have lt: "length t - w < length t" by (cases t) auto
  then have "drop (length t - w) t \<noteq> []"
    and hd: "hd (drop (length t - w) t) = t ! (length t - w)"
    by (simp_all add: hd_drop_conv_nth)
  have "RuneStart (byte (t ! (length t - w)))"
  proof (rule ccontr)
    assume "\<not> RuneStart (byte (t ! (length t - w)))"
    with DecodeRune_not_start [OF \<open>drop (length t - w) t \<noteq> []\<close>] hd d
    have "r = RuneError" by simp
    with assms(2) show False by (simp add: IsSpace_RuneError)
  qed
  with ne w show ?thesis by simp
qed

text \<open>
  What \<open>lastIndexFunc\<close> finds: the offset of a rune that is not a space, decoded from
  the end of a prefix; what follows the rune is nothing or starts a rune.
\<close>

lemma lastIndexFunc_loop_result:
  assumes "lastIndexFunc_loop t IsSpace False = i"
  shows "i = - 1
    \<or> (\<exists>r w. 0 \<le> i \<and> 1 \<le> w \<and> nat i + w \<le> length t
          \<and> DecodeLastRuneInString (take (nat i + w) t) = (r, w) \<and> \<not> IsSpace r
          \<and> (nat i + w = length t \<or> RuneStart (byte (t ! (nat i + w)))))"
  using assms
proof (induction t arbitrary: i rule: length_induct)
  case (1 t)
  show ?case
  proof (cases "length t > 0")
    case False
    with "1.prems" show ?thesis by (subst (asm) lastIndexFunc_loop.simps) simp
  next
    case True
    then have ne: "t \<noteq> []" by simp
    obtain r w where d: "DecodeLastRuneInString t = (r, w)"
      by (cases "DecodeLastRuneInString t")
    from DecodeLastRune_as_DecodeRune [OF ne d] have w: "1 \<le> w" "w \<le> length t"
      by simp_all
    define j where "j = length t - w"
    from w have j: "int (length t) - int w = int j" "j + w = length t" "j < length t"
      by (simp_all add: j_def)
    show ?thesis
    proof (cases "IsSpace r")
      case False
      with "1.prems" True d j(1) have "i = int j"
        by (subst (asm) lastIndexFunc_loop.simps) (simp add: Let_def)
      with False d w j
      have "0 \<le> i \<and> 1 \<le> w \<and> nat i + w \<le> length t
          \<and> DecodeLastRuneInString (take (nat i + w) t) = (r, w) \<and> \<not> IsSpace r
          \<and> (nat i + w = length t \<or> RuneStart (byte (t ! (nat i + w))))"
        by simp
      then show ?thesis by blast
    next
      case sp: True
      from w have nj: "nat (int (length t) - int w) = j"
        by (simp add: j_def nat_diff_distrib')
      from "1.prems" True d sp have rec: "lastIndexFunc_loop (take j t) IsSpace False = i"
        by (subst (asm) lastIndexFunc_loop.simps) (simp add: Let_def nj)
      from j have shorter: "length (take j t) < length t" by simp
      from "1.IH" [rule_format, OF shorter rec]
      consider "i = - 1"
        | r' w' where "0 \<le> i" "1 \<le> w'" "nat i + w' \<le> length (take j t)"
          "DecodeLastRuneInString (take (nat i + w') (take j t)) = (r', w')" "\<not> IsSpace r'"
          "nat i + w' = length (take j t) \<or> RuneStart (byte (take j t ! (nat i + w')))"
        by blast
      then show ?thesis
      proof cases
        case 1
        then show ?thesis by simp
      next
        case 2
        from 2(3) j have le: "nat i + w' \<le> j" by simp
        then have tk: "take (nat i + w') (take j t) = take (nat i + w') t"
          by (simp add: min_absorb1)
        from DecodeLastRune_space_start [OF d sp] have st: "RuneStart (byte (t ! j))"
          by (simp add: j_def)
        have "RuneStart (byte (t ! (nat i + w')))"
        proof (cases "nat i + w' = j")
          case True
          with st show ?thesis by simp
        next
          case False
          with le have "nat i + w' < j" by simp
          with 2(6) j show ?thesis by simp
        qed
        with 2 tk le j
        have "0 \<le> i \<and> 1 \<le> w' \<and> nat i + w' \<le> length t
            \<and> DecodeLastRuneInString (take (nat i + w') t) = (r', w') \<and> \<not> IsSpace r'
            \<and> (nat i + w' = length t \<or> RuneStart (byte (t ! (nat i + w'))))"
          by simp
        then show ?thesis by blast
      qed
    qed
  qed
qed

lemma TrimRightFunc_no_trailing: "\<not> hasTrailingSpace (TrimRightFunc s IsSpace)"
proof -
  define i where "i = lastIndexFunc s IsSpace False"
  from lastIndexFunc_loop_result [of s i]
  consider "i = - 1"
    | r w where "0 \<le> i" "1 \<le> w" "nat i + w \<le> length s"
      "DecodeLastRuneInString (take (nat i + w) s) = (r, w)" "\<not> IsSpace r"
      "nat i + w = length s \<or> RuneStart (byte (s ! (nat i + w)))"
    unfolding i_def lastIndexFunc_def by blast
  then show ?thesis
  proof cases
    case 1
    then have "TrimRightFunc s IsSpace = []"
      by (simp add: TrimRightFunc_def Let_def i_def [symmetric])
    then show ?thesis by simp
  next
    case 2
    let ?t = "take (nat i + w) s"
    let ?u = "drop (nat i) ?t"
    let ?v = "drop (nat i + w) s"
    from 2 have ne: "?t \<noteq> []" by auto
    from 2 have len: "length ?t = nat i + w" by simp
    from DecodeLastRune_as_DecodeRune [OF ne 2(4)] len
    have du: "DecodeRuneInString ?u = (r, w)" by simp
    from 2 have lu: "length ?u = w" by simp
    with 2 have une: "?u \<noteq> []" by auto
    have s1: "drop (nat i) s = drop (nat i) (?t @ ?v)"
      by (simp only: append_take_drop_id)
    have s2: "drop (nat i) (?t @ ?v) = ?u @ drop (nat i - length ?t) ?v"
      by (rule drop_append)
    have s3: "drop (nat i - length ?t) ?v = ?v"
      using len by simp
    from s1 s2 s3 have split: "drop (nat i) s = ?u @ ?v"
      by metis
    have vst: "?v = [] \<or> RuneStart (byte (hd ?v))"
    proof (cases "nat i + w = length s")
      case True
      then show ?thesis by simp
    next
      case False
      with 2 have "nat i + w < length s" by simp
      with 2(6) False show ?thesis by (simp add: hd_drop_conv_nth)
    qed
    from du lu have "DecodeRuneInString ?u = (r, length ?u)" by simp
    from DecodeRune_whole [OF une this vst] lu split
    have whole: "DecodeRuneInString (drop (nat i) s) = (r, w)" by simp
    from 2 have lt: "nat i < length s" by simp
    have hdu: "hd ?u = s ! nat i"
      using 2 lt by (simp add: hd_drop_conv_nth)
    have k: "(if i \<ge> 0 \<and> byte (s ! nat i) \<ge> RuneSelf
              then i + int (snd (DecodeRuneInString (drop (nat i) s)))
              else i + 1) = i + int w"
    proof (cases "byte (s ! nat i) \<ge> RuneSelf")
      case True
      with 2 whole show ?thesis by simp
    next
      case False
      then have "byte (hd ?u) < 0x80" by (simp add: hdu RuneSelf_def)
      from DecodeRune_ascii [OF une this] du have "w = 1" by simp
      with False show ?thesis by simp
    qed
    from 2 have "nat (i + int w) = nat i + w" by simp
    with k have "TrimRightFunc s IsSpace = ?t"
      by (simp add: TrimRightFunc_def Let_def i_def [symmetric])
    with 2 show ?thesis by (simp add: hasTrailingSpace_def)
  qed
qed

lemma no_trailing_ascii:
  assumes "t \<noteq> []" and "byte (last t) < 0x80" and "\<not> asciiSpace (byte (last t))"
  shows "\<not> hasTrailingSpace t"
  using assms by (simp add: hasTrailingSpace_def DecodeLastRune_ascii IsSpace_ascii)

lemma TrimSpace_stop_no_trailing:
  assumes "stop \<le> length s"
  shows "\<not> hasTrailingSpace (TrimSpace_stop s start stop)"
  using assms
proof (induction s start stop rule: TrimSpace_stop.induct)
  case (1 s start stop)
  show ?case
  proof (cases "stop > start")
    case False
    then have "TrimSpace_stop s start stop = drop start (take stop s)"
      by (subst TrimSpace_stop.simps) simp
    with False show ?thesis by simp
  next
    case True
    let ?c = "byte (s ! (stop - 1))"
    show ?thesis
    proof (cases "?c \<ge> RuneSelf")
      case high: True
      with True have "TrimSpace_stop s start stop =
          TrimRightFunc (drop start (take stop s)) IsSpace"
        by (subst TrimSpace_stop.simps) simp
      then show ?thesis by (simp add: TrimRightFunc_no_trailing)
    next
      case low: False
      show ?thesis
      proof (cases "asciiSpace ?c")
        case False
        with True low have eq: "TrimSpace_stop s start stop = drop start (take stop s)"
          by (subst TrimSpace_stop.simps) simp
        from True "1.prems" have ne: "drop start (take stop s) \<noteq> []" by simp
        from True "1.prems" have "last (drop start (take stop s)) = s ! (stop - 1)"
          by (simp add: last_drop last_conv_nth min_absorb2)
        with low False ne have "\<not> hasTrailingSpace (drop start (take stop s))"
          by (intro no_trailing_ascii) (simp_all add: RuneSelf_def)
        with eq show ?thesis by simp
      next
        case sp: True
        with True low have "TrimSpace_stop s start stop = TrimSpace_stop s start (stop - 1)"
          by (subst TrimSpace_stop.simps) simp
        moreover from "1.prems" have "stop - 1 \<le> length s" by simp
        ultimately show ?thesis using "1.IH" [OF True refl low] sp by simp
      qed
    qed
  qed
qed

lemma TrimSpace_start_no_trailing: "\<not> hasTrailingSpace (TrimSpace_start s start)"
proof (induction s start rule: TrimSpace_start.induct)
  case (1 s start)
  show ?case
  proof (cases "start < length s")
    case False
    then have "TrimSpace_start s start = TrimSpace_stop s start (length s)"
      by (subst TrimSpace_start.simps) simp
    then show ?thesis by (simp add: TrimSpace_stop_no_trailing)
  next
    case True
    let ?c = "byte (s ! start)"
    show ?thesis
    proof (cases "?c \<ge> RuneSelf")
      case high: True
      with True have "TrimSpace_start s start = TrimFunc (drop start s) IsSpace"
        by (subst TrimSpace_start.simps) simp
      then show ?thesis by (simp add: TrimFunc_def TrimRightFunc_no_trailing)
    next
      case low: False
      show ?thesis
      proof (cases "asciiSpace ?c")
        case False
        with True low have "TrimSpace_start s start = TrimSpace_stop s start (length s)"
          by (subst TrimSpace_start.simps) simp
        then show ?thesis by (simp add: TrimSpace_stop_no_trailing)
      next
        case sp: True
        with True low have "TrimSpace_start s start = TrimSpace_start s (start + 1)"
          by (subst TrimSpace_start.simps) simp
        with "1.IH" [OF True refl low] sp show ?thesis by simp
      qed
    qed
  qed
qed

lemma TrimSpace_no_trailing: "\<not> hasTrailingSpace (TrimSpace s)"
  by (simp add: TrimSpace_def TrimSpace_start_no_trailing)

text \<open>What \<open>TrimSpace\<close> returns is a slice of its argument.\<close>

lemma TrimLeftFunc_drop: "\<exists>n. TrimLeftFunc s f = drop n s"
proof (cases "indexFunc s f False = - 1")
  case True
  then have "TrimLeftFunc s f = drop (length s) s"
    by (simp add: TrimLeftFunc_def)
  then show ?thesis by blast
next
  case False
  then show ?thesis by (auto simp: TrimLeftFunc_def Let_def)
qed

lemma TrimSpace_start_slice: "\<exists>k n. TrimSpace_start s start = take k (drop n s)"
proof (induction s start rule: TrimSpace_start.induct)
  case (1 s start)
  show ?case
  proof (cases "start < length s \<and> byte (s ! start) < RuneSelf \<and> asciiSpace (byte (s ! start))")
    case True
    then have "TrimSpace_start s start = TrimSpace_start s (start + 1)"
      by (subst TrimSpace_start.simps) simp
    with "1.IH" [of "byte (s ! start)"] True show ?thesis by simp
  next
    case False
    show ?thesis
    proof (cases "start < length s \<and> byte (s ! start) \<ge> RuneSelf")
      case True
      then have "TrimSpace_start s start = TrimFunc (drop start s) IsSpace"
        by (subst TrimSpace_start.simps) simp
      moreover obtain n where "TrimLeftFunc (drop start s) IsSpace = drop n (drop start s)"
        using TrimLeftFunc_drop by blast
      moreover obtain k where "TrimRightFunc (drop n (drop start s)) IsSpace =
          take k (drop n (drop start s))"
        using TrimRightFunc_take by blast
      ultimately have "TrimSpace_start s start = take k (drop (n + start) s)"
        by (simp add: TrimFunc_def)
      then show ?thesis by blast
    next
      case high: False
      with False have "TrimSpace_start s start = TrimSpace_stop s start (length s)"
        by (subst TrimSpace_start.simps) (auto simp: Let_def)
      with TrimSpace_stop_take [of s start "length s"] show ?thesis by metis
    qed
  qed
qed

lemma set_TrimSpace: "set (TrimSpace s) \<subseteq> set s"
proof -
  obtain k n where "TrimSpace s = take k (drop n s)"
    using TrimSpace_start_slice unfolding TrimSpace_def by blast
  then show ?thesis
    by (metis set_drop_subset set_take_subset subset_trans)
qed

text \<open>No element of \<open>Split s sep\<close> holds the separator.\<close>

lemma IndexByte_absent: "IndexByte s c < 0 \<Longrightarrow> c \<notin> set s"
  by (induction s) (auto simp: Let_def split: if_splits)

lemma IndexByte_before: "0 \<le> IndexByte s c \<Longrightarrow> c \<notin> set (take (nat (IndexByte s c)) s)"
proof (induction s)
  case Nil
  then show ?case by simp
next
  case (Cons x xs)
  show ?case
  proof (cases "x = c")
    case True
    then show ?thesis by simp
  next
    case False
    with Cons.prems have nn: "0 \<le> IndexByte xs c" and
      eq: "IndexByte (x # xs) c = IndexByte xs c + 1"
      by (auto simp: Let_def split: if_splits)
    from nn have "nat (IndexByte xs c + 1) = Suc (nat (IndexByte xs c))" by simp
    with Cons.IH [OF nn] False eq show ?thesis by simp
  qed
qed

lemma Split_no_sep:
  assumes "tok \<in> set (Split s sep)"
  shows "sep \<notin> set tok"
  using assms
proof (induction s sep rule: Split.induct)
  case (1 s sep)
  show ?case
  proof (cases "IndexByte s sep < 0")
    case True
    with "1.prems" have "tok = s"
      by (subst (asm) Split.simps) (simp add: Let_def)
    with IndexByte_absent [OF True] show ?thesis by simp
  next
    case False
    with "1.prems" have "tok = take (nat (IndexByte s sep)) s
        \<or> tok \<in> set (Split (drop (nat (IndexByte s sep) + 1) s) sep)"
      by (subst (asm) Split.simps) (simp add: Let_def)
    then show ?thesis
    proof
      assume "tok = take (nat (IndexByte s sep)) s"
      with IndexByte_before [of s sep] False show ?thesis by simp
    next
      assume "tok \<in> set (Split (drop (nat (IndexByte s sep) + 1) s) sep)"
      with "1.IH" [OF refl False] show ?thesis by simp
    qed
  qed
qed

text \<open>
  A string with white space at an end, or with a comma in it, is not the trimmed form
  of an element of a list split at commas.
\<close>

lemma not_a_trimmed_token:
  assumes "hasLeadingSpace x \<or> hasTrailingSpace x \<or> CHR '','' \<in> set x"
    and "tok \<in> set (Split p CHR '','')"
  shows "x \<noteq> TrimSpace tok"
proof
  assume eq: "x = TrimSpace tok"
  from Split_no_sep [OF assms(2)] set_TrimSpace [of tok] have "CHR '','' \<notin> set (TrimSpace tok)"
    by blast
  with assms(1) eq TrimSpace_no_leading [of tok] TrimSpace_no_trailing [of tok]
  show False by simp
qed

section \<open>One-sided trimming on the artefact route\<close>

text \<open>
  C10. A string has leading (trailing) white space when its first (last) rune, as
  package \<^verbatim>\<open>utf8\<close> decodes it, is a space of \<^verbatim>\<open>unicode.IsSpace\<close>, the spaces
  \<^verbatim>\<open>strings.TrimSpace\<close> removes. When the data is loaded and the \<open>objectNumbers\<close> value
  is not empty, the slice handed to the encoder holds the records whose stored object
  number, as it is, equals the trimmed form of some comma-separated token of the value.
  A record whose stored object number has leading or trailing white space, or a comma in
  it, is not among them, whatever the value is.
\<close>

theorem untrimmed_objectNumber_never_selected:
  assumes "findFile pf os ''qm_data.json'' = (filePath, None)"
    and "ReadFile os filePath = Inr data"
    and "Unmarshal_QMResponse pf data = Inr qmResponse"
    and "Values_Get (Query r) ''objectNumbers'' = objectNumbersParam"
    and "objectNumbersParam \<noteq> []"
    and "hasLeadingSpace (ObjectNumber a) \<or> hasTrailingSpace (ObjectNumber a)
         \<or> CHR '','' \<in> set (ObjectNumber a)"
  shows "\<exists>sel.
      sel = filter (\<lambda>x. \<exists>tok \<in> set (Split objectNumbersParam CHR '','').
                          ObjectNumber x = TrimSpace tok) (elems (Results qmResponse))
    \<and> fst (artefactsHandler pf os newResponseWriter r) =
        fst (Encoder_Encode (Marshal_ArtefactDTO pf)
          \<lparr>header = json_headers, wroteHeader = False, status = 0, body = []\<rparr>
          (if sel = [] then NilSlice else Slice sel))
    \<and> a \<notin> set sel"
proof -
  let ?toks = "Split objectNumbersParam CHR '',''"
  let ?sel = "filter (\<lambda>x. \<exists>tok \<in> set ?toks. ObjectNumber x = TrimSpace tok)
      (elems (Results qmResponse))"
  have f: "filter (\<lambda>x. ObjectNumber x \<in> set (elems (artefacts_parse_loop ?toks NilSlice)))
      (elems (Results qmResponse)) = ?sel"
    by (auto simp: artefacts_parse_loop_elems intro: filter_cong)
  have loop: "artefacts_filter_loop (elems (Results qmResponse))
      (elems (artefacts_parse_loop ?toks NilSlice)) NilSlice =
      (if ?sel = [] then NilSlice else Slice ?sel)"
    by (simp only: artefacts_filter_loop_eq f) simp
  have handler: "fst (artefactsHandler pf os newResponseWriter r) =
      fst (Encoder_Encode (Marshal_ArtefactDTO pf)
        \<lparr>header = json_headers, wroteHeader = False, status = 0, body = []\<rparr>
        (if ?sel = [] then NilSlice else Slice ?sel))"
    by (simp only: artefactsHandler_loaded [OF assms(1-3)] assms(4) assms(5) loop if_True
        simp_thms)
  have "\<forall>tok \<in> set ?toks. ObjectNumber a \<noteq> TrimSpace tok"
    using not_a_trimmed_token [OF assms(6)] by blast
  then have "a \<notin> set ?sel" by simp
  with handler show ?thesis by blast
qed

lemma example_Split_untrimmed:
  "Split '' Q2, Q3,4 ,Q1.1'' CHR '','' = ['' Q2'', '' Q3'', ''4 '', ''Q1.1'']"
  by code_simp

lemma example_TrimSpace_untrimmed:
  "TrimSpace '' Q2'' = ''Q2''" "TrimSpace '' Q3'' = ''Q3''" "TrimSpace ''4 '' = ''4''"
  by code_simp+

lemma example_hasLeadingSpace: "hasLeadingSpace '' Q2''"
  by code_simp

text \<open>
  The value names the lamp, whose stored number is \<^verbatim>\<open>" Q2"\<close>, the coin, whose stored
  number is \<^verbatim>\<open>"Q3,4"\<close>, and the bowl: the bowl alone is returned.
\<close>

theorem untrimmed_objectNumber_never_selected_witness:
  "findFile example_platform example_os ''qm_data.json'' = (''qm_data.json'', None)
   \<and> ReadFile example_os ''qm_data.json'' = Inr ''QM''
   \<and> Unmarshal_QMResponse example_platform ''QM'' = Inr (example_envelope 3 ''page2'')
   \<and> Values_Get (Query (example_request ''/artefacts''
         [''objectNumbers'' \<mapsto> ['' Q2, Q3,4 ,Q1.1'']])) ''objectNumbers'' = '' Q2, Q3,4 ,Q1.1''
   \<and> '' Q2, Q3,4 ,Q1.1'' \<noteq> []
   \<and> hasLeadingSpace (ObjectNumber (artefact_of '' Q2'' ''lamp''))
   \<and> artefact_of '' Q2'' ''lamp'' \<in> set (elems (Results (example_envelope 3 ''page2'')))
   \<and> filter (\<lambda>x. \<exists>tok \<in> set (Split '' Q2, Q3,4 ,Q1.1'' CHR '','').
                     ObjectNumber x = TrimSpace tok)
        (elems (Results (example_envelope 3 ''page2''))) = [artefact_of ''Q1.1'' ''bowl'']
   \<and> body (fst (artefactsHandler example_platform example_os newResponseWriter
        (example_request ''/artefacts'' [''objectNumbers'' \<mapsto> ['' Q2, Q3,4 ,Q1.1'']])))
       = ''[{bowl}]'' @ [CHR 0x0A]"
proof -
  let ?r = "example_request ''/artefacts'' [''objectNumbers'' \<mapsto> ['' Q2, Q3,4 ,Q1.1'']]"
  let ?a = "artefact_of '' Q2'' ''lamp''"
  have get: "Values_Get (Query ?r) ''objectNumbers'' = '' Q2, Q3,4 ,Q1.1''"
    by (simp add: Values_Get_def example_request_def)
  have ne: "'' Q2, Q3,4 ,Q1.1'' \<noteq> []" by simp
  have num: "ObjectNumber ?a = '' Q2''"
    by (simp add: artefact_of_def)
  have lead: "hasLeadingSpace (ObjectNumber ?a)"
    by (simp only: num example_hasLeadingSpace)
  then have hyp: "hasLeadingSpace (ObjectNumber ?a) \<or> hasTrailingSpace (ObjectNumber ?a)
      \<or> CHR '','' \<in> set (ObjectNumber ?a)"
    by simp
  have mem: "?a \<in> set (elems (Results (example_envelope 3 ''page2'')))"
    by (simp add: example_envelope_def example_artefacts_def)
  have sel: "filter (\<lambda>x. \<exists>tok \<in> set (Split '' Q2, Q3,4 ,Q1.1'' CHR '','').
                     ObjectNumber x = TrimSpace tok)
        (elems (Results (example_envelope 3 ''page2''))) = [artefact_of ''Q1.1'' ''bowl'']"
    by (simp add: example_Split_untrimmed example_TrimSpace_untrimmed example_TrimSpace_Q11
        example_envelope_def example_artefacts_def artefact_of_def)
  have enc: "Encode_slice (Marshal_ArtefactDTO example_platform)
       (Slice [artefact_of ''Q1.1'' ''bowl'']) = Inr (''[{bowl}]'' @ [CHR 0x0A])"
    by (simp add: Encode_slice_def example_platform_def artefact_of_def)
  from untrimmed_objectNumber_never_selected [OF example_findFile_qm example_ReadFile_qm
      example_Unmarshal_qm get ne hyp]
  have "fst (artefactsHandler example_platform example_os newResponseWriter ?r) =
        fst (Encoder_Encode (Marshal_ArtefactDTO example_platform)
          \<lparr>header = json_headers, wroteHeader = False, status = 0, body = []\<rparr>
          (Slice [artefact_of ''Q1.1'' ''bowl'']))"
    unfolding sel by simp
  then have bd: "body (fst (artefactsHandler example_platform example_os newResponseWriter ?r))
       = ''[{bowl}]'' @ [CHR 0x0A]"
    by (simp only: Encoder_Encode_fresh_body enc sum.case)
  from example_findFile_qm example_ReadFile_qm example_Unmarshal_qm get ne lead mem sel bd
  show ?thesis by (simp only: simp_thms)
qed

end
